theory Spec2Isabelle
  imports Complex_Main
begin

section \<open>The damped Newton minimizer of \<^verbatim>\<open>tools/src/minimizer.cpp\<close>\<close>

text \<open>
  The class \<^verbatim>\<open>minimizer\<close> fits the 11 parameters of a superquadric to a point cloud.
  Its arithmetic is on C++ \<^verbatim>\<open>double\<close>s, its linear algebra is Eigen's, and the derivative
  formulas \<^verbatim>\<open>jac_\<close> and \<^verbatim>\<open>hessian_\<close> are generated code outside the file. None of the
  three is fixed here: the functions below take them as arguments, so every theorem
  holds for whatever the machine addition, Eigen's inverse or the formulas compute.
\<close>

subsection \<open>Doubles and Eigen, as the code uses them\<close>

text \<open>
  \<open>'d\<close> is the type of \<^verbatim>\<open>double\<close> values. \<open>d_ne a b\<close> is the C++ test \<^verbatim>\<open>a != b\<close>
  (true of \<^verbatim>\<open>x != x\<close> exactly when \<^verbatim>\<open>x\<close> is not-a-number), \<open>d_gt a b\<close> is \<^verbatim>\<open>a > b\<close>.
  \<open>mat_inverse\<close> is \<^verbatim>\<open>MatrixXd::inverse()\<close>, \<open>mat_times\<close> the product of a matrix
  with a column, \<open>vec_norm\<close> is \<^verbatim>\<open>norm()\<close>.
\<close>

record 'd numerics =
  d_zero :: 'd
  d_one :: 'd
  d_add :: "'d \<Rightarrow> 'd \<Rightarrow> 'd"
  d_sub :: "'d \<Rightarrow> 'd \<Rightarrow> 'd"
  d_mul :: "'d \<Rightarrow> 'd \<Rightarrow> 'd"
  d_gt :: "'d \<Rightarrow> 'd \<Rightarrow> bool"
  d_ne :: "'d \<Rightarrow> 'd \<Rightarrow> bool"
  mat_inverse :: "'d list list \<Rightarrow> 'd list list"
  mat_times :: "'d list list \<Rightarrow> 'd list \<Rightarrow> 'd list"
  vec_norm :: "'d list \<Rightarrow> 'd"

text \<open>
  A \<^verbatim>\<open>VectorXd\<close> is the list of its coefficients, a \<^verbatim>\<open>MatrixXd\<close> the list of its rows.
  Sums, differences and multiples of Eigen are coefficient-wise. Eigen asserts that the
  operands of a sum or difference have the same size, and that an index is in range; the
  code uses them at 11 coefficients and 11 rows of 11, where the vectors it is given have
  11 coefficients.
\<close>

type_synonym 'd VectorXd = "'d list"
type_synonym 'd MatrixXd = "'d list list"

definition vec_sub :: "'d numerics \<Rightarrow> 'd VectorXd \<Rightarrow> 'd VectorXd \<Rightarrow> 'd VectorXd" where
  "vec_sub N a b = map2 (d_sub N) a b"

definition mat_add :: "'d numerics \<Rightarrow> 'd MatrixXd \<Rightarrow> 'd MatrixXd \<Rightarrow> 'd MatrixXd" where
  "mat_add N A B = map2 (map2 (d_add N)) A B"

definition mat_scale :: "'d numerics \<Rightarrow> 'd \<Rightarrow> 'd MatrixXd \<Rightarrow> 'd MatrixXd" where
  "mat_scale N c A = map (map (d_mul N c)) A"

definition Zero_vec :: "'d numerics \<Rightarrow> nat \<Rightarrow> 'd VectorXd" where
  "Zero_vec N n = replicate n (d_zero N)"

definition Zero_mat :: "'d numerics \<Rightarrow> nat \<Rightarrow> nat \<Rightarrow> 'd MatrixXd" where
  "Zero_mat N r c = replicate r (replicate c (d_zero N))"

definition Identity :: "'d numerics \<Rightarrow> nat \<Rightarrow> nat \<Rightarrow> 'd MatrixXd" where
  "Identity N r c =
     map (\<lambda>i. map (\<lambda>j. if i = j then d_one N else d_zero N) [0..<c]) [0..<r]"

text \<open>\<^verbatim>\<open>A(m,n) = v\<close> and \<^verbatim>\<open>A(m,n)\<close> on a matrix.\<close>

definition mat_set :: "'d MatrixXd \<Rightarrow> nat \<Rightarrow> nat \<Rightarrow> 'd \<Rightarrow> 'd MatrixXd" where
  "mat_set A m n v = A[m := (A ! m)[n := v]]"

definition mat_get :: "'d MatrixXd \<Rightarrow> nat \<Rightarrow> nat \<Rightarrow> 'd" where
  "mat_get A m n = A ! m ! n"

subsection \<open>The object, the cloud and what is printed\<close>

datatype 'd PointXYZ = PointXYZ (point_x: 'd) (point_y: 'd) (point_z: 'd)

text \<open>
  The lines written to \<^verbatim>\<open>std::cout\<close>, one constructor per output statement:
  \<open>JacobianNaN n\<close> is \<^verbatim>\<open>[Jacobian] NAN value in (n)\<close>, \<open>HessianNaN m n\<close> is
  \<^verbatim>\<open>[Hessian] NAN value in (m, n)\<close>, \<open>IterMsg i e\<close> is \<^verbatim>\<open>Iter: i with error: e\<close>.
\<close>

datatype 'd msg =
    InitialGuess "'d list"
  | IterMsg int 'd
  | JacobianNaN nat
  | HessianNaN nat nat
  | Bad int
  | Good int
  | FinalCoefficients "'d list"
  | PrintJ "'d list"
  | PrintH "'d list list"

text \<open>
  The members of \<^verbatim>\<open>minimizer\<close> that the fit reads or writes, and the output stream.
  \<open>mSamples\<close> is the cloud the shared pointer refers to; a coordinate is the
  \<^verbatim>\<open>double\<close> that \<^verbatim>\<open>x = it->x\<close> converts the stored \<^verbatim>\<open>float\<close> to.
\<close>

record 'd minimizer =
  mSamples :: "'d PointXYZ list"
  mLambda :: 'd
  mMaxIter :: int
  mMinThresh :: 'd
  mParams :: "'d VectorXd"
  cout :: "'d msg list"

text \<open>The constructor sets \<^verbatim>\<open>mNumParams = 11\<close>; nothing else in the file assigns it.\<close>

definition mNumParams :: nat where
  "mNumParams = 11"

text \<open>
  What the file calls and does not define. \<open>jac X [a1, a2, a3, e1, e2, px, py, pz, ra, pa, ya] x y z\<close>
  is the array that the call \<^verbatim>\<open>jac_(&a1, ..., &ya, &x, &y, &z, jac)\<close> leaves in
  \<^verbatim>\<open>jac\<close>, as a function of the index; \<open>hessian\<close> the same for \<^verbatim>\<open>hessian_\<close> and
  \<^verbatim>\<open>hes\<close>. Both are taken to read their first 14 arguments only. \<open>params2Vec\<close> and
  \<open>vec2Param\<close> convert between the caller's \<^verbatim>\<open>SQ_params\<close> (the type \<open>'p\<close>) and the
  parameter vector; \<open>vec2Param v p\<close> is \<^verbatim>\<open>p\<close> after \<^verbatim>\<open>vec2Param(v, p)\<close>.
\<close>

record ('d, 'p) externals =
  jac :: "'d list \<Rightarrow> 'd \<Rightarrow> 'd \<Rightarrow> 'd \<Rightarrow> nat \<Rightarrow> 'd"
  hessian :: "'d list \<Rightarrow> 'd \<Rightarrow> 'd \<Rightarrow> 'd \<Rightarrow> nat \<Rightarrow> 'd"
  params2Vec :: "'p \<Rightarrow> 'd VectorXd"
  vec2Param :: "'d VectorXd \<Rightarrow> 'p \<Rightarrow> 'p"

text \<open>The eleven scalars \<^verbatim>\<open>a1 = _params(0); ...; ya = _params(10)\<close>.\<close>

definition unpack :: "'d VectorXd \<Rightarrow> 'd list" where
  "unpack params =
     (let a1 = params ! 0; a2 = params ! 1; a3 = params ! 2;
          e1 = params ! 3; e2 = params ! 4;
          px = params ! 5; py = params ! 6; pz = params ! 7;
          ra = params ! 8; pa = params ! 9; ya = params ! 10
      in [a1, a2, a3, e1, e2, px, py, pz, ra, pa, ya])"

subsection \<open>\<^verbatim>\<open>minimizer::df\<close>\<close>

text \<open>
  The body of the inner loop at index \<open>n\<close>: a not-a-number entry is printed and
  skipped, any other entry is added to \<^verbatim>\<open>df(n)\<close>.
\<close>

definition df_elem ::
  "'d numerics \<Rightarrow> (nat \<Rightarrow> 'd) \<Rightarrow> nat \<Rightarrow> 'd VectorXd \<times> 'd msg list \<Rightarrow> 'd VectorXd \<times> 'd msg list" where
  "df_elem N jc n acc =
     (case acc of (v, out) \<Rightarrow>
        if d_ne N (jc n) (jc n) then (v, out @ [JacobianNaN n])
        else (v[n := d_add N (v ! n) (jc n)], out))"

text \<open>The body of the loop over the cloud, for one point.\<close>

definition df_point ::
  "'d numerics \<Rightarrow> ('d, 'p) externals \<Rightarrow> 'd VectorXd \<Rightarrow> 'd PointXYZ
     \<Rightarrow> 'd VectorXd \<times> 'd msg list \<Rightarrow> 'd VectorXd \<times> 'd msg list" where
  "df_point N X params pt acc =
     (let as = unpack params;
          x = point_x pt; y = point_y pt; z = point_z pt;
          jc = jac X as x y z
      in fold (df_elem N jc) [0..<mNumParams] acc)"

definition df ::
  "'d numerics \<Rightarrow> ('d, 'p) externals \<Rightarrow> 'd minimizer \<Rightarrow> 'd VectorXd
     \<Rightarrow> 'd VectorXd \<times> 'd minimizer" where
  "df N X s params =
     (let v0 = Zero_vec N mNumParams;
          v1 = fold (\<lambda>n v. v[n := d_zero N]) [0..<mNumParams] v0;
          (v, out) = fold (df_point N X params) (mSamples s) (v1, cout s)
      in (v, s\<lparr>cout := out\<rparr>))"

subsection \<open>\<^verbatim>\<open>minimizer::ddf\<close>\<close>

text \<open>
  The body of the innermost loop at row \<open>m\<close> and column \<open>n\<close>; \<open>ind\<close> is the running
  index into \<^verbatim>\<open>hes\<close>, incremented in both branches.
\<close>

definition ddf_elem ::
  "'d numerics \<Rightarrow> (nat \<Rightarrow> 'd) \<Rightarrow> nat \<Rightarrow> nat
     \<Rightarrow> 'd MatrixXd \<times> nat \<times> 'd msg list \<Rightarrow> 'd MatrixXd \<times> nat \<times> 'd msg list" where
  "ddf_elem N hes m n acc =
     (case acc of (A, ind, out) \<Rightarrow>
        if d_ne N (hes ind) (hes ind) then (A, ind + 1, out @ [HessianNaN m n])
        else (mat_set A m n (d_add N (mat_get A m n) (hes ind)), ind + 1, out))"

definition ddf_row ::
  "'d numerics \<Rightarrow> (nat \<Rightarrow> 'd) \<Rightarrow> nat
     \<Rightarrow> 'd MatrixXd \<times> nat \<times> 'd msg list \<Rightarrow> 'd MatrixXd \<times> nat \<times> 'd msg list" where
  "ddf_row N hes m acc = fold (ddf_elem N hes m) [0..<mNumParams] acc"

text \<open>
  The body of the loop over the cloud. The eleven scalars are read once, before the
  loop, and passed in as \<open>as\<close>.
\<close>

definition ddf_point ::
  "'d numerics \<Rightarrow> ('d, 'p) externals \<Rightarrow> 'd list \<Rightarrow> 'd PointXYZ
     \<Rightarrow> 'd MatrixXd \<times> 'd msg list \<Rightarrow> 'd MatrixXd \<times> 'd msg list" where
  "ddf_point N X as pt acc =
     (case acc of (A, out) \<Rightarrow>
        let x = point_x pt; y = point_y pt; z = point_z pt;
            hes = hessian X as x y z;
            ind = 0;
            (A', ind', out') = fold (ddf_row N hes) [0..<mNumParams] (A, ind, out)
        in (A', out'))"

definition ddf ::
  "'d numerics \<Rightarrow> ('d, 'p) externals \<Rightarrow> 'd minimizer \<Rightarrow> 'd VectorXd
     \<Rightarrow> 'd MatrixXd \<times> 'd minimizer" where
  "ddf N X s params =
     (let A0 = Zero_mat N mNumParams mNumParams;
          A1 = fold (\<lambda>m A. fold (\<lambda>n A. mat_set A m n (d_zero N)) [0..<mNumParams] A)
                 [0..<mNumParams] A0;
          as = unpack params;
          (A, out) = fold (ddf_point N X as) (mSamples s) (A1, cout s)
      in (A, s\<lparr>cout := out\<rparr>))"

subsection \<open>\<^verbatim>\<open>minimizer::minimize\<close>\<close>

text \<open>
  The local variables of \<^verbatim>\<open>minimize\<close> after one pass through the body of the
  \<^verbatim>\<open>do\<close> loop, with the object. \<^verbatim>\<open>J\<close> is declared a matrix and holds the column
  that \<^verbatim>\<open>df\<close> returns.
\<close>

record 'd locals =
  loc_this :: "'d minimizer"
  loc_H :: "'d MatrixXd"
  loc_J :: "'d VectorXd"
  loc_dH :: "'d MatrixXd"
  loc_error :: 'd
  loc_iter :: int
  loc_oldParams :: "'d VectorXd"

text \<open>\<^verbatim>\<open>for( int i = 0; i < mNumParams; ++i ) { dH(i,i) = H(i,i); }\<close>\<close>

definition copy_diag :: "'d MatrixXd \<Rightarrow> 'd MatrixXd \<Rightarrow> 'd MatrixXd" where
  "copy_diag H dH = fold (\<lambda>i D. mat_set D i i (mat_get H i i)) [0..<mNumParams] dH"

text \<open>
  One pass through the body. What it reads from before the pass is the object, \<^verbatim>\<open>dH\<close>
  and \<^verbatim>\<open>iter\<close>; \<^verbatim>\<open>oldParams\<close>, \<^verbatim>\<open>H\<close>, \<^verbatim>\<open>J\<close> and \<^verbatim>\<open>error\<close> are assigned before
  they are read.
\<close>

definition minimize_body ::
  "'d numerics \<Rightarrow> ('d, 'p) externals \<Rightarrow> 'd minimizer \<times> 'd MatrixXd \<times> int \<Rightarrow> 'd locals" where
  "minimize_body N X c =
     (case c of (s, dH, iter) \<Rightarrow>
        let oldParams = mParams s;
            (H, s1) = ddf N X s (mParams s);
            (J, s2) = df N X s1 (mParams s1);
            dH' = copy_diag H dH;
            newParams = vec_sub N (mParams s2)
                          (mat_times N (mat_inverse N (mat_add N H (mat_scale N (mLambda s2) dH'))) J);
            s3 = s2\<lparr>mParams := newParams\<rparr>;
            iter' = iter + 1;
            err = vec_norm N (vec_sub N (mParams s3) oldParams);
            s4 = s3\<lparr>cout := cout s3 @ [IterMsg iter' err]\<rparr>
        in \<lparr>loc_this = s4, loc_H = H, loc_J = J, loc_dH = dH', loc_error = err,
            loc_iter = iter', loc_oldParams = oldParams\<rparr>)"

text \<open>What the next pass starts from.\<close>

definition carry :: "'d locals \<Rightarrow> 'd minimizer \<times> 'd MatrixXd \<times> int" where
  "carry L = (loc_this L, loc_dH L, loc_iter L)"

text \<open>\<^verbatim>\<open>iter < mMaxIter && error > mMinThresh\<close>\<close>

definition continue :: "'d numerics \<Rightarrow> 'd locals \<Rightarrow> bool" where
  "continue N L \<longleftrightarrow>
     loc_iter L < mMaxIter (loc_this L) \<and> d_gt N (loc_error L) (mMinThresh (loc_this L))"

text \<open>
  The \<^verbatim>\<open>do ... while\<close> loop: the body runs, then the test decides. It ends because
  \<^verbatim>\<open>iter\<close> grows by one in every pass and the test fails at \<^verbatim>\<open>mMaxIter\<close>. The
  count is an \<^verbatim>\<open>int\<close> of C++, modelled by an integer: it stays at most the larger of
  1 and \<^verbatim>\<open>mMaxIter\<close> (lemma \<open>count_bounded\<close>), so it does not overflow.
\<close>

function minimize_loop ::
  "'d numerics \<Rightarrow> ('d, 'p) externals \<Rightarrow> 'd minimizer \<times> 'd MatrixXd \<times> int \<Rightarrow> 'd locals" where
  "minimize_loop N X c =
     (let L = minimize_body N X c
      in if continue N L then minimize_loop N X (carry L) else L)"
  by pat_completeness auto
termination
proof (relation "measure (\<lambda>(N, X, s, dH, iter). nat (mMaxIter s - iter))")
  show "wf (measure (\<lambda>(N, X, s, dH, iter). nat (mMaxIter s - iter)))" by simp
next
  fix N :: "'d numerics" and X :: "('d, 'p) externals" and c L
  assume L: "L = minimize_body N X c" and go: "continue N L"
  obtain s dH iter where c: "c = (s, dH, iter)" by (cases c)
  have "loc_iter L = iter + 1"
    using L c by (simp add: minimize_body_def Let_def split: prod.splits)
  moreover have "mMaxIter (loc_this L) = mMaxIter s"
    using L c by (simp add: minimize_body_def df_def ddf_def Let_def split: prod.splits)
  moreover have "loc_iter L < mMaxIter (loc_this L)"
    using go by (simp add: continue_def)
  ultimately show "((N, X, carry L), (N, X, c))
      \<in> measure (\<lambda>(N, X, s, dH, iter). nat (mMaxIter s - iter))"
    using c by (simp add: carry_def)
qed

declare minimize_loop.simps [simp del]

text \<open>
  \<^verbatim>\<open>minimize(_par_in, _par_out)\<close> up to the loop: \<^verbatim>\<open>dH\<close> is the identity,
  \<^verbatim>\<open>iter\<close> is 0, and \<^verbatim>\<open>mParams << params2Vec(_par_in)\<close> fills \<^verbatim>\<open>mParams\<close> with the
  coefficients of the vector (both have \<^verbatim>\<open>mNumParams\<close> coefficients, which Eigen
  asserts). The initial guess is printed.
\<close>

definition minimize_start ::
  "'d numerics \<Rightarrow> ('d, 'p) externals \<Rightarrow> 'd minimizer \<Rightarrow> 'p \<Rightarrow> 'd minimizer \<times> 'd MatrixXd \<times> int" where
  "minimize_start N X s par_in =
     (let dH = Identity N mNumParams mNumParams;
          iter = 0;
          s0 = s\<lparr>mParams := params2Vec X par_in\<rparr>;
          s1 = s0\<lparr>cout := cout s0 @ [InitialGuess (mParams s0)]\<rparr>
      in (s1, dH, iter))"

text \<open>\<^verbatim>\<open>minimize\<close> returns the flag, \<^verbatim>\<open>_par_out\<close> and the object.\<close>

definition minimize ::
  "'d numerics \<Rightarrow> ('d, 'p) externals \<Rightarrow> 'd minimizer \<Rightarrow> 'p \<Rightarrow> 'p \<Rightarrow> bool \<times> 'p \<times> 'd minimizer" where
  "minimize N X s par_in par_out =
     (let L = minimize_loop N X (minimize_start N X s par_in);
          t = loc_this L;
          par_out' = vec2Param X (mParams t) par_out
      in if loc_iter L \<ge> mMaxIter t
         then (False, par_out',
               t\<lparr>cout := cout t @ [Bad (loc_iter L), FinalCoefficients (mParams t)]\<rparr>)
         else (True, par_out',
               t\<lparr>cout := cout t @ [Good (loc_iter L), FinalCoefficients (mParams t),
                                    PrintJ (loc_J L), PrintH (loc_H L)]\<rparr>))"

subsection \<open>Notions the properties are stated with\<close>

text \<open>The locals after pass \<open>k + 1\<close> of the body when the loop test is left aside.\<close>

fun pass ::
  "'d numerics \<Rightarrow> ('d, 'p) externals \<Rightarrow> 'd minimizer \<times> 'd MatrixXd \<times> int \<Rightarrow> nat \<Rightarrow> 'd locals" where
  "pass N X c 0 = minimize_body N X c"
| "pass N X c (Suc k) = minimize_body N X (carry (pass N X c k))"

text \<open>Not-a-number, as the code tests it, and the guarded addition of the two loops.\<close>

definition is_nan :: "'d numerics \<Rightarrow> 'd \<Rightarrow> bool" where
  "is_nan N a \<longleftrightarrow> d_ne N a a"

definition add_unless_nan :: "'d numerics \<Rightarrow> 'd \<Rightarrow> 'd \<Rightarrow> 'd" where
  "add_unless_nan N acc a = (if is_nan N a then acc else d_add N acc a)"

text \<open>
  The contribution of one point: entry \<open>n\<close> of the first-derivative formula and entry
  \<open>ind\<close> of the second-derivative formula (row-major, \<open>ind = 11 * m + n\<close>).
\<close>

definition jac_at :: "('d, 'p) externals \<Rightarrow> 'd VectorXd \<Rightarrow> 'd PointXYZ \<Rightarrow> nat \<Rightarrow> 'd" where
  "jac_at X params pt n = jac X (unpack params) (point_x pt) (point_y pt) (point_z pt) n"

definition hessian_at :: "('d, 'p) externals \<Rightarrow> 'd VectorXd \<Rightarrow> 'd PointXYZ \<Rightarrow> nat \<Rightarrow> 'd" where
  "hessian_at X params pt ind =
     hessian X (unpack params) (point_x pt) (point_y pt) (point_z pt) ind"

text \<open>
  Two sums of a contribution \<open>f\<close> over the cloud, in the order of the cloud and from
  0.0: over all points, and over the points where \<open>f\<close> is a number.
\<close>

definition sum_all :: "'d numerics \<Rightarrow> ('a \<Rightarrow> 'd) \<Rightarrow> 'a list \<Rightarrow> 'd" where
  "sum_all N f pts = fold (\<lambda>pt acc. d_add N acc (f pt)) pts (d_zero N)"

definition sum_numbers :: "'d numerics \<Rightarrow> ('a \<Rightarrow> 'd) \<Rightarrow> 'a list \<Rightarrow> 'd" where
  "sum_numbers N f pts = fold (\<lambda>pt acc. add_unless_nan N acc (f pt)) pts (d_zero N)"

text \<open>The vector and the matrix with given entries.\<close>

definition vec_of :: "(nat \<Rightarrow> 'd) \<Rightarrow> nat \<Rightarrow> 'd VectorXd" where
  "vec_of f n = map f [0..<n]"

definition mat_of :: "(nat \<Rightarrow> nat \<Rightarrow> 'd) \<Rightarrow> nat \<Rightarrow> nat \<Rightarrow> 'd MatrixXd" where
  "mat_of f r c = map (\<lambda>m. map (f m) [0..<c]) [0..<r]"

text \<open>The matrix with the diagonal of \<open>H\<close> and 0.0 elsewhere.\<close>

definition diag_mat :: "'d numerics \<Rightarrow> 'd MatrixXd \<Rightarrow> 'd MatrixXd" where
  "diag_mat N H =
     mat_of (\<lambda>i j. if i = j then mat_get H i i else d_zero N) mNumParams mNumParams"

text \<open>
  The damped Newton update of a parameter vector \<open>p\<close> in the words of the design: with
  \<open>H\<close> the Hessian and \<open>J\<close> the gradient at \<open>p\<close> and \<open>D\<close> the diagonal of \<open>H\<close>, it is
  \<open>p - \<Delta>\<close> where \<open>\<Delta>\<close> is the inverse of \<open>H + \<lambda> D\<close> times \<open>J\<close>.
\<close>

definition newton_step ::
  "'d numerics \<Rightarrow> ('d, 'p) externals \<Rightarrow> 'd minimizer \<Rightarrow> 'd VectorXd \<Rightarrow> 'd VectorXd" where
  "newton_step N X s p =
     (let H = fst (ddf N X s p); J = fst (df N X s p); D = diag_mat N H;
          Delta = mat_times N (mat_inverse N (mat_add N H (mat_scale N (mLambda s) D))) J
      in vec_sub N p Delta)"

text \<open>
  The product of two 11 by 11 matrices, column by column with Eigen's product of a matrix
  with a column. The inverse that Eigen returns for \<open>M\<close> is exact, as far as a column
  \<open>b\<close> goes, when \<open>M\<close> times the inverse is the identity and the two products with
  \<open>b\<close> are exact: multiplying \<open>b\<close> by the inverse and then by \<open>M\<close> is multiplying it
  by their product, and multiplying it by the identity leaves it.
\<close>

definition mat_mul :: "'d numerics \<Rightarrow> 'd MatrixXd \<Rightarrow> 'd MatrixXd \<Rightarrow> 'd MatrixXd" where
  "mat_mul N A B =
     (let columns = mat_of (\<lambda>j i. mat_get B i j) mNumParams mNumParams;
          products = map (mat_times N A) columns
      in mat_of (\<lambda>i j. mat_get products j i) mNumParams mNumParams)"

definition inverse_exact :: "'d numerics \<Rightarrow> 'd MatrixXd \<Rightarrow> 'd VectorXd \<Rightarrow> bool" where
  "inverse_exact N M b \<longleftrightarrow>
     mat_mul N M (mat_inverse N M) = Identity N mNumParams mNumParams
     \<and> mat_times N M (mat_times N (mat_inverse N M) b) =
         mat_times N (mat_mul N M (mat_inverse N M)) b
     \<and> mat_times N (Identity N mNumParams mNumParams) b = b"

text \<open>What \<^verbatim>\<open>df\<close> and \<^verbatim>\<open>ddf\<close> print for one point.\<close>

definition jac_diagnostics ::
  "'d numerics \<Rightarrow> ('d, 'p) externals \<Rightarrow> 'd VectorXd \<Rightarrow> 'd PointXYZ \<Rightarrow> 'd msg list" where
  "jac_diagnostics N X params pt =
     map JacobianNaN (filter (\<lambda>n. is_nan N (jac_at X params pt n)) [0..<mNumParams])"

definition hessian_diagnostics ::
  "'d numerics \<Rightarrow> ('d, 'p) externals \<Rightarrow> 'd VectorXd \<Rightarrow> 'd PointXYZ \<Rightarrow> 'd msg list" where
  "hessian_diagnostics N X params pt =
     concat (map (\<lambda>m. map (HessianNaN m)
                        (filter (\<lambda>n. is_nan N (hessian_at X params pt (m * mNumParams + n)))
                           [0..<mNumParams]))
               [0..<mNumParams])"

subsection \<open>A model of doubles for the examples\<close>

text \<open>
  The examples below run the functions on concrete numbers. Their doubles are the reals with
  the two infinities and not-a-number; rounding is left out, so the model is exact only
  where the machine is (as on the small values of the examples), and there is one zero.
\<close>

datatype double = Fin real | PInf | NInf | NaN

definition signed_inf :: "bool \<Rightarrow> double" where
  "signed_inf positive = (if positive then PInf else NInf)"

fun dneg :: "double \<Rightarrow> double" where
  "dneg (Fin a) = Fin (- a)"
| "dneg PInf = NInf"
| "dneg NInf = PInf"
| "dneg NaN = NaN"

fun dadd :: "double \<Rightarrow> double \<Rightarrow> double" where
  "dadd (Fin a) (Fin b) = Fin (a + b)"
| "dadd NaN b = NaN"
| "dadd a NaN = NaN"
| "dadd PInf NInf = NaN"
| "dadd NInf PInf = NaN"
| "dadd PInf b = PInf"
| "dadd a PInf = PInf"
| "dadd NInf b = NInf"
| "dadd a NInf = NInf"

definition dsub :: "double \<Rightarrow> double \<Rightarrow> double" where
  "dsub a b = dadd a (dneg b)"

fun dmul :: "double \<Rightarrow> double \<Rightarrow> double" where
  "dmul (Fin a) (Fin b) = Fin (a * b)"
| "dmul NaN b = NaN"
| "dmul a NaN = NaN"
| "dmul PInf (Fin b) = (if b = 0 then NaN else signed_inf (0 < b))"
| "dmul NInf (Fin b) = (if b = 0 then NaN else signed_inf (b < 0))"
| "dmul (Fin a) PInf = (if a = 0 then NaN else signed_inf (0 < a))"
| "dmul (Fin a) NInf = (if a = 0 then NaN else signed_inf (a < 0))"
| "dmul PInf PInf = PInf"
| "dmul NInf NInf = PInf"
| "dmul PInf NInf = NInf"
| "dmul NInf PInf = NInf"

fun ddiv :: "double \<Rightarrow> double \<Rightarrow> double" where
  "ddiv (Fin a) (Fin b) =
     (if b = 0 then (if a = 0 then NaN else signed_inf (0 < a)) else Fin (a / b))"
| "ddiv (Fin a) PInf = Fin 0"
| "ddiv (Fin a) NInf = Fin 0"
| "ddiv (Fin a) NaN = NaN"
| "ddiv PInf (Fin b) = signed_inf (0 \<le> b)"
| "ddiv NInf (Fin b) = signed_inf (b < 0)"
| "ddiv PInf PInf = NaN"
| "ddiv PInf NInf = NaN"
| "ddiv PInf NaN = NaN"
| "ddiv NInf PInf = NaN"
| "ddiv NInf NInf = NaN"
| "ddiv NInf NaN = NaN"
| "ddiv NaN b = NaN"

fun dsqrt :: "double \<Rightarrow> double" where
  "dsqrt (Fin a) = (if a < 0 then NaN else Fin (sqrt a))"
| "dsqrt PInf = PInf"
| "dsqrt NInf = NaN"
| "dsqrt NaN = NaN"

text \<open>The comparisons \<^verbatim>\<open>a > b\<close>, \<^verbatim>\<open>a <= b\<close> and \<^verbatim>\<open>a != b\<close>; the first two are false on not-a-number.\<close>

fun dgt :: "double \<Rightarrow> double \<Rightarrow> bool" where
  "dgt (Fin a) (Fin b) \<longleftrightarrow> b < a"
| "dgt (Fin a) NInf \<longleftrightarrow> True"
| "dgt PInf (Fin b) \<longleftrightarrow> True"
| "dgt PInf NInf \<longleftrightarrow> True"
| "dgt a b \<longleftrightarrow> False"

fun dle :: "double \<Rightarrow> double \<Rightarrow> bool" where
  "dle (Fin a) (Fin b) \<longleftrightarrow> a \<le> b"
| "dle (Fin a) PInf \<longleftrightarrow> True"
| "dle (Fin a) NInf \<longleftrightarrow> False"
| "dle (Fin a) NaN \<longleftrightarrow> False"
| "dle PInf (Fin b) \<longleftrightarrow> False"
| "dle PInf PInf \<longleftrightarrow> True"
| "dle PInf NInf \<longleftrightarrow> False"
| "dle PInf NaN \<longleftrightarrow> False"
| "dle NInf (Fin b) \<longleftrightarrow> True"
| "dle NInf PInf \<longleftrightarrow> True"
| "dle NInf NInf \<longleftrightarrow> True"
| "dle NInf NaN \<longleftrightarrow> False"
| "dle NaN b \<longleftrightarrow> False"

definition dne :: "double \<Rightarrow> double \<Rightarrow> bool" where
  "dne a b \<longleftrightarrow> a = NaN \<or> b = NaN \<or> a \<noteq> b"

text \<open>
  Eigen on these doubles: the product of a matrix with a column by rows, the Euclidean
  norm, and an inverse for diagonal matrices (the reciprocals of the diagonal), which is
  all the examples invert. The reciprocal of 0.0 is an infinity, so the inverse of the
  zero matrix times a column of zeros is not-a-number in every entry, as it is with
  Eigen, whose inverse of the zero matrix divides by the zero pivots.
\<close>

definition dot :: "double list \<Rightarrow> double list \<Rightarrow> double" where
  "dot u v = fold (\<lambda>(a, b) acc. dadd acc (dmul a b)) (zip u v) (Fin 0)"

definition times_example :: "double list list \<Rightarrow> double list \<Rightarrow> double list" where
  "times_example A v = map (\<lambda>row. dot row v) A"

definition norm_example :: "double list \<Rightarrow> double" where
  "norm_example v = dsqrt (dot v v)"

definition inverse_example :: "double list list \<Rightarrow> double list list" where
  "inverse_example A =
     mat_of (\<lambda>i j. if i = j then ddiv (Fin 1) (mat_get A i i) else Fin 0) (length A) (length A)"

definition doubles :: "double numerics" where
  "doubles = \<lparr>d_zero = Fin 0, d_one = Fin 1, d_add = dadd, d_sub = dsub, d_mul = dmul,
     d_gt = dgt, d_ne = dne, mat_inverse = inverse_example, mat_times = times_example,
     vec_norm = norm_example\<rparr>"

text \<open>
  Derivative formulas for the examples: entry 0 of the first derivative is \<open>(x / x) * y\<close>,
  the others are \<open>(z / z) * y\<close>; the second derivative has \<open>x / x\<close> on the diagonal and
  \<open>(z / z) * 0\<close> elsewhere. A coordinate 0 makes the quotient not-a-number. An
  \<^verbatim>\<open>SQ_params\<close> is the list of its eleven values.
\<close>

definition formulas :: "(double, double list) externals" where
  "formulas = \<lparr>
     jac = (\<lambda>as x y z n. if n = 0 then dmul (ddiv x x) y else dmul (ddiv z z) y),
     hessian = (\<lambda>as x y z ind. if ind mod (mNumParams + 1) = 0 then ddiv x x
                                 else dmul (ddiv z z) (Fin 0)),
     params2Vec = (\<lambda>p. p),
     vec2Param = (\<lambda>v p. v)\<rparr>"

text \<open>
  The object as the constructor leaves it: an empty cloud, \<^verbatim>\<open>mLambda = 0.1\<close>,
  \<^verbatim>\<open>mMaxIter = 1000\<close>, \<^verbatim>\<open>mMinThresh = 0.005\<close>, and \<^verbatim>\<open>mParams\<close> resized to 11
  coefficients. The two literals are stored as the doubles nearest to them, which are
  \<open>3602879701896397 / 2^55\<close> and \<open>5764607523034235 / 2^60\<close>. The constructor does
  not set the coefficients of \<^verbatim>\<open>mParams\<close>; they are 0.0 here, and \<^verbatim>\<open>minimize\<close>
  overwrites them before it reads them.
\<close>

definition constructed :: "double minimizer" where
  "constructed = \<lparr>mSamples = [], mLambda = Fin (3602879701896397 / 36028797018963968),
     mMaxIter = 1000, mMinThresh = Fin (5764607523034235 / 1152921504606846976),
     mParams = replicate mNumParams (Fin 0), cout = []\<rparr>"

text \<open>
  Five points: one where every contribution is a number (the first derivative is 0, the
  second the identity), one where entry 0 of the first derivative is not-a-number and the
  others are 2, one where every entry is not-a-number, and two where the second
  derivative is the identity and the first is 2, respectively \<open>1 / 1024\<close>, in every
  entry.
\<close>

definition good_point :: "double PointXYZ" where
  "good_point = PointXYZ (Fin 1) (Fin 0) (Fin 1)"

definition nan_point :: "double PointXYZ" where
  "nan_point = PointXYZ (Fin 0) (Fin 2) (Fin 1)"

definition all_nan_point :: "double PointXYZ" where
  "all_nan_point = PointXYZ (Fin 0) (Fin 0) (Fin 0)"

definition steep_point :: "double PointXYZ" where
  "steep_point = PointXYZ (Fin 1) (Fin 2) (Fin 1)"

definition shallow_point :: "double PointXYZ" where
  "shallow_point = PointXYZ (Fin 1) (Fin (1 / 1024)) (Fin 1)"

text \<open>The constructed object after \<^verbatim>\<open>loadPoints\<close> of a cloud.\<close>

definition loaded :: "double PointXYZ list \<Rightarrow> double minimizer" where
  "loaded pts = constructed\<lparr>mSamples := pts\<rparr>"

text \<open>
  The same with other constants: damping 1.0 and a given cap on the passes. With damping
  1.0 and the points above, every sum, product and quotient of a pass is a double, so
  the parameters the examples state are those of the machine.
\<close>

definition tuned :: "double PointXYZ list \<Rightarrow> int \<Rightarrow> double minimizer" where
  "tuned pts cap = (loaded pts)\<lparr>mLambda := Fin 1, mMaxIter := cap\<rparr>"

definition guess :: "double list" where
  "guess = replicate mNumParams (Fin 1)"

section \<open>Properties\<close>

subsection \<open>Vectors and matrices by their entries\<close>

lemma length_vec_of [simp]: "length (vec_of f n) = n"
  by (simp add: vec_of_def)

lemma nth_vec_of [simp]: "i < n \<Longrightarrow> vec_of f n ! i = f i"
  by (simp add: vec_of_def)

lemma vec_of_cong: "(\<And>i. i < n \<Longrightarrow> f i = g i) \<Longrightarrow> vec_of f n = vec_of g n"
  by (simp add: vec_of_def)

lemma replicate_vec_of: "replicate k z = vec_of (\<lambda>_. z) k"
  by (simp add: vec_of_def list_eq_iff_nth_eq)

lemma length_mat_of [simp]: "length (mat_of f r c) = r"
  by (simp add: mat_of_def)

lemma nth_mat_of [simp]: "m < r \<Longrightarrow> mat_of f r c ! m = vec_of (f m) c"
  by (simp add: mat_of_def vec_of_def)

lemma mat_get_mat_of [simp]: "m < r \<Longrightarrow> n < c \<Longrightarrow> mat_get (mat_of f r c) m n = f m n"
  by (simp add: mat_get_def)

lemma mat_of_cong:
  "(\<And>i j. i < r \<Longrightarrow> j < c \<Longrightarrow> f i j = g i j) \<Longrightarrow> mat_of f r c = mat_of g r c"
  by (simp add: mat_of_def)

lemma row_lengths_mat_of: "map length (mat_of f r c) = replicate r c"
  by (simp add: mat_of_def list_eq_iff_nth_eq)

lemma Zero_mat_mat_of: "Zero_mat N r c = mat_of (\<lambda>_ _. d_zero N) r c"
  by (simp add: Zero_mat_def mat_of_def list_eq_iff_nth_eq)

lemma mat_set_mat_of:
  assumes "m < r" and "n < c"
  shows "mat_set (mat_of f r c) m n v = mat_of (\<lambda>i j. if i = m \<and> j = n then v else f i j) r c"
proof (rule nth_equalityI)
  show "length (mat_set (mat_of f r c) m n v) =
      length (mat_of (\<lambda>i j. if i = m \<and> j = n then v else f i j) r c)"
    by (simp add: mat_set_def)
next
  fix i assume "i < length (mat_set (mat_of f r c) m n v)"
  then have i: "i < r" by (simp add: mat_set_def)
  show "mat_set (mat_of f r c) m n v ! i =
      mat_of (\<lambda>i j. if i = m \<and> j = n then v else f i j) r c ! i"
  proof (cases "i = m")
    case True
    have "(vec_of (f m) c)[n := v] = vec_of (\<lambda>j. if j = n then v else f m j) c"
      using assms by (auto intro!: nth_equalityI simp: nth_list_update)
    then show ?thesis using True assms by (simp add: mat_set_def)
  next
    case False
    then show ?thesis using i assms by (simp add: mat_set_def cong: vec_of_cong)
  qed
qed

subsection \<open>The loops of \<^verbatim>\<open>df\<close>\<close>

lemma fold_df_elem:
  "k \<le> length v \<Longrightarrow>
   fold (df_elem N jc) [0..<k] (v, out) =
     (map (\<lambda>n. if n < k then add_unless_nan N (v ! n) (jc n) else v ! n) [0..<length v],
      out @ map JacobianNaN (filter (\<lambda>n. is_nan N (jc n)) [0..<k]))"
proof (induction k)
  case 0
  then show ?case by (simp add: map_nth)
next
  case (Suc k)
  then have k: "k < length v" by simp
  let ?w = "map (\<lambda>n. if n < k then add_unless_nan N (v ! n) (jc n) else v ! n) [0..<length v]"
  have step: "fst (df_elem N jc k (?w, out')) =
      map (\<lambda>n. if n < Suc k then add_unless_nan N (v ! n) (jc n) else v ! n) [0..<length v]" for out'
    using k by (auto simp: df_elem_def add_unless_nan_def is_nan_def intro!: nth_equalityI simp: nth_list_update less_Suc_eq)
  have out: "snd (df_elem N jc k (w, out')) = out' @ map JacobianNaN (filter (\<lambda>n. is_nan N (jc n)) [k])" for w out'
    by (simp add: df_elem_def is_nan_def)
  have IH: "fold (df_elem N jc) [0..<k] (v, out) =
      (?w, out @ map JacobianNaN (filter (\<lambda>n. is_nan N (jc n)) [0..<k]))"
    using Suc.IH k by simp
  show ?case
    by (simp add: IH prod_eq_iff step out del: filter.simps)
qed

lemma df_point_eq:
  "length v = mNumParams \<Longrightarrow>
   df_point N X p pt (v, out) =
     (vec_of (\<lambda>n. add_unless_nan N (v ! n) (jac_at X p pt n)) mNumParams,
      out @ jac_diagnostics N X p pt)"
  by (simp add: df_point_def Let_def fold_df_elem vec_of_def jac_at_def jac_diagnostics_def
      cong: map_cong)

lemma fold_df_point:
  "fold (df_point N X p) pts (vec_of f mNumParams, out) =
     (vec_of (\<lambda>n. fold (\<lambda>pt acc. add_unless_nan N acc (jac_at X p pt n)) pts (f n)) mNumParams,
      out @ concat (map (jac_diagnostics N X p) pts))"
proof (induction pts arbitrary: f out)
  case Nil
  then show ?case by simp
next
  case (Cons pt pts)
  have "df_point N X p pt (vec_of f mNumParams, out) =
     (vec_of (\<lambda>n. add_unless_nan N (f n) (jac_at X p pt n)) mNumParams,
      out @ jac_diagnostics N X p pt)"
    by (simp add: df_point_eq cong: vec_of_cong)
  then show ?case by (simp add: Cons.IH)
qed

lemma replicate_update_same: "(replicate k z)[a := z] = replicate k z"
  by (cases "a < k") (auto intro!: nth_equalityI simp: nth_list_update)

lemma zero_loop_vec:
  "fold (\<lambda>n v. v[n := z]) ns (replicate k z) = replicate k z"
  by (induction ns) (simp_all add: replicate_update_same)

lemma df_eq:
  "df N X s p =
     (vec_of (\<lambda>n. sum_numbers N (\<lambda>pt. jac_at X p pt n) (mSamples s)) mNumParams,
      s\<lparr>cout := cout s @ concat (map (jac_diagnostics N X p) (mSamples s))\<rparr>)"
proof -
  have "fold (\<lambda>n v. v[n := d_zero N]) [0..<mNumParams] (Zero_vec N mNumParams) =
      vec_of (\<lambda>_. d_zero N) mNumParams"
    by (simp add: Zero_vec_def zero_loop_vec) (simp add: replicate_vec_of)
  then show ?thesis
    by (simp add: df_def Let_def fold_df_point sum_numbers_def)
qed

subsection \<open>The loops of \<^verbatim>\<open>ddf\<close>\<close>

lemma fold_ddf_elem:
  assumes "m < r"
  shows "k \<le> c \<Longrightarrow>
   fold (ddf_elem N hes m) [0..<k] (mat_of f r c, ind, out) =
     (mat_of (\<lambda>i j. if i = m \<and> j < k then add_unless_nan N (f i j) (hes (ind + j)) else f i j) r c,
      ind + k,
      out @ map (HessianNaN m) (filter (\<lambda>n. is_nan N (hes (ind + n))) [0..<k]))"
proof (induction k)
  case 0
  then show ?case by simp
next
  case (Suc k)
  then have k: "k < c" by simp
  let ?g = "\<lambda>i j. if i = m \<and> j < k then add_unless_nan N (f i j) (hes (ind + j)) else f i j"
  have IH: "fold (ddf_elem N hes m) [0..<k] (mat_of f r c, ind, out) =
     (mat_of ?g r c, ind + k,
      out @ map (HessianNaN m) (filter (\<lambda>n. is_nan N (hes (ind + n))) [0..<k]))"
    using Suc.IH k by simp
  have step: "ddf_elem N hes m k (mat_of ?g r c, ind + k, out') =
     (mat_of (\<lambda>i j. if i = m \<and> j < Suc k then add_unless_nan N (f i j) (hes (ind + j)) else f i j) r c,
      ind + Suc k,
      out' @ map (HessianNaN m) (filter (\<lambda>n. is_nan N (hes (ind + n))) [k]))" for out'
    using assms k
    by (auto simp: ddf_elem_def mat_set_mat_of add_unless_nan_def is_nan_def less_Suc_eq
        intro!: mat_of_cong)
  show ?case
    by (simp add: IH step del: filter.simps)
qed

lemma fold_ddf_row:
  "j \<le> r \<Longrightarrow>
   fold (ddf_row N hes) [0..<j] (mat_of f r mNumParams, ind, out) =
     (mat_of (\<lambda>i n. if i < j then add_unless_nan N (f i n) (hes (ind + i * mNumParams + n))
                      else f i n) r mNumParams,
      ind + j * mNumParams,
      out @ concat (map (\<lambda>m. map (HessianNaN m)
                          (filter (\<lambda>n. is_nan N (hes (ind + m * mNumParams + n))) [0..<mNumParams]))
                      [0..<j]))"
proof (induction j)
  case 0
  then show ?case by simp
next
  case (Suc j)
  then have j: "j < r" by simp
  let ?g = "\<lambda>i n. if i < j then add_unless_nan N (f i n) (hes (ind + i * mNumParams + n)) else f i n"
  have IH: "fold (ddf_row N hes) [0..<j] (mat_of f r mNumParams, ind, out) =
     (mat_of ?g r mNumParams, ind + j * mNumParams,
      out @ concat (map (\<lambda>m. map (HessianNaN m)
                          (filter (\<lambda>n. is_nan N (hes (ind + m * mNumParams + n))) [0..<mNumParams]))
                      [0..<j]))"
    using Suc.IH j by simp
  have step: "ddf_row N hes j (mat_of ?g r mNumParams, ind + j * mNumParams, out') =
     (mat_of (\<lambda>i n. if i < Suc j then add_unless_nan N (f i n) (hes (ind + i * mNumParams + n))
                      else f i n) r mNumParams,
      ind + Suc j * mNumParams,
      out' @ map (HessianNaN j)
                (filter (\<lambda>n. is_nan N (hes (ind + j * mNumParams + n))) [0..<mNumParams]))" for out'
    using j
    by (auto simp: ddf_row_def fold_ddf_elem less_Suc_eq add.assoc add.commute intro!: mat_of_cong)
  show ?case
    by (simp add: IH step)
qed

lemma ddf_point_eq:
  "ddf_point N X (unpack p) pt (mat_of f mNumParams mNumParams, out) =
     (mat_of (\<lambda>m n. add_unless_nan N (f m n) (hessian_at X p pt (m * mNumParams + n)))
        mNumParams mNumParams,
      out @ hessian_diagnostics N X p pt)"
  by (simp add: ddf_point_def Let_def fold_ddf_row hessian_at_def hessian_diagnostics_def
      cong: mat_of_cong)

lemma fold_ddf_point:
  "fold (ddf_point N X (unpack p)) pts (mat_of f mNumParams mNumParams, out) =
     (mat_of (\<lambda>m n. fold (\<lambda>pt acc. add_unless_nan N acc (hessian_at X p pt (m * mNumParams + n)))
                       pts (f m n)) mNumParams mNumParams,
      out @ concat (map (hessian_diagnostics N X p) pts))"
  by (induction pts arbitrary: f out) (simp_all add: ddf_point_eq)

lemma zero_loop_row:
  "m < r \<Longrightarrow> k \<le> c \<Longrightarrow>
   fold (\<lambda>n A. mat_set A m n z) [0..<k] (mat_of (\<lambda>_ _. z) r c) = mat_of (\<lambda>_ _. z) r c"
  by (induction k) (simp_all add: mat_set_mat_of)

lemma zero_loop_mat:
  "j \<le> r \<Longrightarrow>
   fold (\<lambda>m A. fold (\<lambda>n A. mat_set A m n z) [0..<c] A) [0..<j] (mat_of (\<lambda>_ _. z) r c) =
     mat_of (\<lambda>_ _. z) r c"
  by (induction j) (simp_all add: zero_loop_row)

lemma ddf_eq:
  "ddf N X s p =
     (mat_of (\<lambda>m n. sum_numbers N (\<lambda>pt. hessian_at X p pt (m * mNumParams + n)) (mSamples s))
        mNumParams mNumParams,
      s\<lparr>cout := cout s @ concat (map (hessian_diagnostics N X p) (mSamples s))\<rparr>)"
  by (simp add: ddf_def Let_def Zero_mat_mat_of zero_loop_mat fold_ddf_point sum_numbers_def)

subsection \<open>The body and the loop of \<^verbatim>\<open>minimize\<close>\<close>

lemma copy_diag_fold:
  "k \<le> mNumParams \<Longrightarrow>
   fold (\<lambda>i D. mat_set D i i (mat_get H i i)) [0..<k] (mat_of g mNumParams mNumParams) =
     mat_of (\<lambda>i j. if i = j \<and> i < k then mat_get H i i else g i j) mNumParams mNumParams"
proof (induction k)
  case 0
  then show ?case by simp
next
  case (Suc k)
  then show ?case
    by (auto simp: mat_set_mat_of less_Suc_eq intro!: mat_of_cong)
qed

lemma copy_diag_diag_mat: "copy_diag H (diag_mat N A) = diag_mat N H"
  by (auto simp: copy_diag_def diag_mat_def copy_diag_fold intro!: mat_of_cong)

lemma Identity_diag_mat: "Identity N mNumParams mNumParams = diag_mat N (Identity N mNumParams mNumParams)"
  by (auto simp: Identity_def diag_mat_def mat_of_def mat_get_def)

lemma minimize_body_eq:
  "minimize_body N X (s, diag_mat N A, iter) =
     (let H = fst (ddf N X s (mParams s)); J = fst (df N X s (mParams s));
          D = diag_mat N H;
          new = vec_sub N (mParams s)
                  (mat_times N (mat_inverse N (mat_add N H (mat_scale N (mLambda s) D))) J);
          err = vec_norm N (vec_sub N new (mParams s))
      in \<lparr>loc_this = s\<lparr>mParams := new,
              cout := cout s @ concat (map (hessian_diagnostics N X (mParams s)) (mSamples s))
                        @ concat (map (jac_diagnostics N X (mParams s)) (mSamples s))
                        @ [IterMsg (iter + 1) err]\<rparr>,
          loc_H = H, loc_J = J, loc_dH = D, loc_error = err, loc_iter = iter + 1,
          loc_oldParams = mParams s\<rparr>)"
  by (simp add: minimize_body_def Let_def df_eq ddf_eq copy_diag_diag_mat)

lemma pass_shift: "pass N X c (Suc k) = pass N X (carry (minimize_body N X c)) k"
  by (induction k) simp_all

lemma minimize_loop_pass:
  "\<exists>k. minimize_loop N X c = pass N X c k \<and> \<not> continue N (pass N X c k)
       \<and> (\<forall>j<k. continue N (pass N X c j))"
proof (induction N X c rule: minimize_loop.induct)
  case (1 N X c)
  let ?L = "minimize_body N X c"
  show ?case
  proof (cases "continue N ?L")
    case False
    then have "minimize_loop N X c = pass N X c 0 \<and> \<not> continue N (pass N X c 0)
        \<and> (\<forall>j<0. continue N (pass N X c j))"
      by (simp add: minimize_loop.simps [of N X c])
    then show ?thesis by blast
  next
    case True
    then obtain k where k: "minimize_loop N X (carry ?L) = pass N X (carry ?L) k"
        "\<not> continue N (pass N X (carry ?L) k)"
        "\<forall>j<k. continue N (pass N X (carry ?L) j)"
      using "1.IH" [of ?L] by blast
    have "minimize_loop N X c = pass N X c (Suc k)"
      using True k(1) by (simp add: minimize_loop.simps [of N X c] pass_shift del: pass.simps)
    moreover have "\<not> continue N (pass N X c (Suc k))"
      using k(2) by (simp add: pass_shift del: pass.simps)
    moreover have "continue N (pass N X c j)" if "j < Suc k" for j
    proof (cases j)
      case 0
      then show ?thesis using True by simp
    next
      case (Suc i)
      then show ?thesis using k(3) that by (simp add: pass_shift del: pass.simps)
    qed
    ultimately show ?thesis by blast
  qed
qed

lemma body_fields:
  "mSamples (loc_this (minimize_body N X (s, dH, iter))) = mSamples s"
  "mLambda (loc_this (minimize_body N X (s, dH, iter))) = mLambda s"
  "mMaxIter (loc_this (minimize_body N X (s, dH, iter))) = mMaxIter s"
  "mMinThresh (loc_this (minimize_body N X (s, dH, iter))) = mMinThresh s"
  "loc_iter (minimize_body N X (s, dH, iter)) = iter + 1"
  by (simp_all add: minimize_body_def Let_def df_eq ddf_eq)

lemma pass_fields:
  "mSamples (loc_this (pass N X (s, dH, iter) k)) = mSamples s"
  "mLambda (loc_this (pass N X (s, dH, iter) k)) = mLambda s"
  "mMaxIter (loc_this (pass N X (s, dH, iter) k)) = mMaxIter s"
  "mMinThresh (loc_this (pass N X (s, dH, iter) k)) = mMinThresh s"
  "loc_iter (pass N X (s, dH, iter) k) = iter + int k + 1"
  by (induction k) (simp_all add: body_fields carry_def)

lemma loop_fields:
  "mSamples (loc_this (minimize_loop N X (s, dH, iter))) = mSamples s"
  "mLambda (loc_this (minimize_loop N X (s, dH, iter))) = mLambda s"
  "mMaxIter (loc_this (minimize_loop N X (s, dH, iter))) = mMaxIter s"
  "mMinThresh (loc_this (minimize_loop N X (s, dH, iter))) = mMinThresh s"
proof -
  obtain k where "minimize_loop N X (s, dH, iter) = pass N X (s, dH, iter) k"
    using minimize_loop_pass [of N X "(s, dH, iter)"] by blast
  then show
    "mSamples (loc_this (minimize_loop N X (s, dH, iter))) = mSamples s"
    "mLambda (loc_this (minimize_loop N X (s, dH, iter))) = mLambda s"
    "mMaxIter (loc_this (minimize_loop N X (s, dH, iter))) = mMaxIter s"
    "mMinThresh (loc_this (minimize_loop N X (s, dH, iter))) = mMinThresh s"
    by (simp_all add: pass_fields)
qed

lemma minimize_start_eq:
  "minimize_start N X s par_in =
     (s\<lparr>mParams := params2Vec X par_in, cout := cout s @ [InitialGuess (params2Vec X par_in)]\<rparr>,
      Identity N mNumParams mNumParams, 0)"
  by (simp add: minimize_start_def Let_def)

lemma run_fields:
  "mSamples (loc_this (minimize_loop N X (minimize_start N X s par_in))) = mSamples s"
  "mLambda (loc_this (minimize_loop N X (minimize_start N X s par_in))) = mLambda s"
  "mMaxIter (loc_this (minimize_loop N X (minimize_start N X s par_in))) = mMaxIter s"
  "mMinThresh (loc_this (minimize_loop N X (minimize_start N X s par_in))) = mMinThresh s"
  by (simp_all add: minimize_start_eq loop_fields)

lemma minimize_samples: "mSamples (snd (snd (minimize N X s par_in par_out))) = mSamples s"
  by (simp add: minimize_def Let_def run_fields)

lemma body_update:
  "mParams (loc_this (minimize_body N X c)) =
     vec_sub N (loc_oldParams (minimize_body N X c))
       (mat_times N
          (mat_inverse N
             (mat_add N (loc_H (minimize_body N X c))
                (mat_scale N (mLambda (loc_this (minimize_body N X c))) (loc_dH (minimize_body N X c)))))
          (loc_J (minimize_body N X c)))"
  by (cases c) (simp add: minimize_body_def Let_def df_eq ddf_eq)

lemma pass_update:
  "mParams (loc_this (pass N X c k)) =
     vec_sub N (loc_oldParams (pass N X c k))
       (mat_times N
          (mat_inverse N
             (mat_add N (loc_H (pass N X c k))
                (mat_scale N (mLambda (loc_this (pass N X c k))) (loc_dH (pass N X c k)))))
          (loc_J (pass N X c k)))"
  by (cases k) (simp_all add: body_update)

lemma run_pass:
  obtains k where
    "minimize_loop N X (minimize_start N X s par_in) = pass N X (minimize_start N X s par_in) k"
    "\<not> continue N (pass N X (minimize_start N X s par_in) k)"
    "\<forall>j<k. continue N (pass N X (minimize_start N X s par_in) j)"
    "loc_iter (minimize_loop N X (minimize_start N X s par_in)) = int k + 1"
proof -
  obtain k where k:
    "minimize_loop N X (minimize_start N X s par_in) = pass N X (minimize_start N X s par_in) k"
    "\<not> continue N (pass N X (minimize_start N X s par_in) k)"
    "\<forall>j<k. continue N (pass N X (minimize_start N X s par_in) j)"
    using minimize_loop_pass [of N X "minimize_start N X s par_in"] by blast
  have "loc_iter (pass N X (minimize_start N X s par_in) k) = int k + 1"
    by (simp add: minimize_start_eq pass_fields)
  with k that show ?thesis by simp
qed

lemma start_pass_fields:
  "mMaxIter (loc_this (pass N X (minimize_start N X s par_in) k)) = mMaxIter s"
  "mMinThresh (loc_this (pass N X (minimize_start N X s par_in) k)) = mMinThresh s"
  "mLambda (loc_this (pass N X (minimize_start N X s par_in) k)) = mLambda s"
  "mSamples (loc_this (pass N X (minimize_start N X s par_in) k)) = mSamples s"
  "loc_iter (pass N X (minimize_start N X s par_in) k) = int k + 1"
  by (simp_all add: minimize_start_eq pass_fields)

lemma continue_start_pass:
  "continue N (pass N X (minimize_start N X s par_in) k) \<longleftrightarrow>
     int k + 1 < mMaxIter s
     \<and> d_gt N (loc_error (pass N X (minimize_start N X s par_in) k)) (mMinThresh s)"
  by (simp add: continue_def start_pass_fields)

lemma minimize_flag:
  "fst (minimize N X s par_in par_out) \<longleftrightarrow>
     loc_iter (minimize_loop N X (minimize_start N X s par_in)) < mMaxIter s"
  by (simp add: minimize_def Let_def run_fields)

lemma minimize_par_out:
  "fst (snd (minimize N X s par_in par_out)) =
     vec2Param X (mParams (loc_this (minimize_loop N X (minimize_start N X s par_in)))) par_out"
  by (simp add: minimize_def Let_def)

lemma minimize_mParams:
  "mParams (snd (snd (minimize N X s par_in par_out))) =
     mParams (loc_this (minimize_loop N X (minimize_start N X s par_in)))"
  by (simp add: minimize_def Let_def)

lemma stop_index:
  assumes stop: "\<not> continue N (pass N X c k)" and before: "\<forall>j<k. continue N (pass N X c j)"
  shows "minimize_loop N X c = pass N X c k"
proof -
  obtain k' where k': "minimize_loop N X c = pass N X c k'" "\<not> continue N (pass N X c k')"
      "\<forall>j<k'. continue N (pass N X c j)"
    using minimize_loop_pass [of N X c] by blast
  have "\<not> k' < k" using before k'(2) by blast
  moreover have "\<not> k < k'" using stop k'(3) by blast
  ultimately show ?thesis using k'(1) by simp
qed

lemma count_bounded:
  "loc_iter (minimize_loop N X (minimize_start N X s par_in)) \<le> max 1 (mMaxIter s)"
proof -
  obtain k where k:
    "\<forall>j<k. continue N (pass N X (minimize_start N X s par_in) j)"
    "loc_iter (minimize_loop N X (minimize_start N X s par_in)) = int k + 1"
    by (rule run_pass)
  show ?thesis
  proof (cases k)
    case 0
    then show ?thesis using k(2) by simp
  next
    case (Suc j)
    then have "continue N (pass N X (minimize_start N X s par_in) j)"
      using k(1) by simp
    then have "int j + 1 < mMaxIter s"
      by (simp add: continue_start_pass)
    then show ?thesis using k(2) Suc by simp
  qed
qed

lemma pass_dH:
  "loc_dH (pass N X (s, diag_mat N A, iter) k) = diag_mat N (loc_H (pass N X (s, diag_mat N A, iter) k))"
proof (induction k)
  case 0
  show ?case by (simp add: minimize_body_eq Let_def)
next
  case (Suc k)
  let ?L = "pass N X (s, diag_mat N A, iter) k"
  have "carry ?L = (loc_this ?L, diag_mat N (loc_H ?L), loc_iter ?L)"
    using Suc.IH by (simp add: carry_def)
  then show ?case by (simp add: minimize_body_eq Let_def)
qed

lemma body_H_J:
  "loc_H (minimize_body N X (s, dH, iter)) = fst (ddf N X s (mParams s))"
  "loc_J (minimize_body N X (s, dH, iter)) = fst (df N X s (mParams s))"
  "loc_oldParams (minimize_body N X (s, dH, iter)) = mParams s"
  by (simp_all add: minimize_body_def Let_def df_eq ddf_eq)

lemma pass_H_J:
  "loc_H (pass N X (s, dH, iter) k) = fst (ddf N X s (loc_oldParams (pass N X (s, dH, iter) k)))"
  "loc_J (pass N X (s, dH, iter) k) = fst (df N X s (loc_oldParams (pass N X (s, dH, iter) k)))"
proof -
  have samples: "mSamples (loc_this (pass N X (s, dH, iter) j)) = mSamples s" for j
    by (simp add: pass_fields)
  show "loc_H (pass N X (s, dH, iter) k) = fst (ddf N X s (loc_oldParams (pass N X (s, dH, iter) k)))"
    using samples by (cases k) (simp_all add: body_H_J carry_def ddf_eq)
  show "loc_J (pass N X (s, dH, iter) k) = fst (df N X s (loc_oldParams (pass N X (s, dH, iter) k)))"
    using samples by (cases k) (simp_all add: body_H_J carry_def df_eq)
qed

lemma diag_mat_entries:
  "i < mNumParams \<Longrightarrow> j < mNumParams \<Longrightarrow>
   mat_get (diag_mat N H) i j = (if i = j then mat_get H i i else d_zero N)"
  by (simp add: diag_mat_def)

lemma newton_step_object:
  "mSamples s' = mSamples s \<Longrightarrow> mLambda s' = mLambda s \<Longrightarrow>
   newton_step N X s' p = newton_step N X s p"
  by (simp add: newton_step_def df_eq ddf_eq)

lemma body_params:
  "mParams (loc_this (minimize_body N X (s, diag_mat N A, iter))) = newton_step N X s (mParams s)"
  by (simp add: minimize_body_eq newton_step_def Let_def)

lemma pass_params_general:
  "mParams (loc_this (pass N X (s, diag_mat N A, iter) k)) =
     (newton_step N X s ^^ Suc k) (mParams s)"
proof (induction k)
  case 0
  show ?case by (simp add: body_params)
next
  case (Suc k)
  let ?L = "pass N X (s, diag_mat N A, iter) k"
  have c: "carry ?L = (loc_this ?L, diag_mat N (loc_H ?L), loc_iter ?L)"
    using pass_dH [of N X s A iter k] by (simp add: carry_def)
  have "mParams (loc_this (pass N X (s, diag_mat N A, iter) (Suc k))) =
      newton_step N X (loc_this ?L) (mParams (loc_this ?L))"
    by (simp add: c body_params)
  also have "\<dots> = newton_step N X s (mParams (loc_this ?L))"
    by (rule newton_step_object) (simp_all add: pass_fields)
  finally show ?case using Suc.IH by simp
qed

lemma newton_step_start:
  "newton_step N X
     (s\<lparr>mParams := q, cout := out\<rparr>) p = newton_step N X s p"
  by (rule newton_step_object) simp_all

lemma pass_params:
  "mParams (loc_this (pass N X (minimize_start N X s par_in) k)) =
     (newton_step N X s ^^ Suc k) (params2Vec X par_in)"
proof -
  have start: "minimize_start N X s par_in =
      (s\<lparr>mParams := params2Vec X par_in, cout := cout s @ [InitialGuess (params2Vec X par_in)]\<rparr>,
       diag_mat N (Identity N mNumParams mNumParams), 0)"
    using Identity_diag_mat [of N] by (simp add: minimize_start_eq)
  have "newton_step N X
      (s\<lparr>mParams := params2Vec X par_in, cout := cout s @ [InitialGuess (params2Vec X par_in)]\<rparr>)
      = newton_step N X s"
    by (rule ext) (rule newton_step_start)
  then show ?thesis
    by (simp only: start pass_params_general) simp
qed

lemma damped_step:
  "mParams (loc_this (pass N X (minimize_start N X s par_in) k)) =
     newton_step N X s (loc_oldParams (pass N X (minimize_start N X s par_in) k))"
proof -
  let ?P = "pass N X (minimize_start N X s par_in) k"
  have start: "minimize_start N X s par_in =
      (s\<lparr>mParams := params2Vec X par_in, cout := cout s @ [InitialGuess (params2Vec X par_in)]\<rparr>,
       diag_mat N (Identity N mNumParams mNumParams), 0)"
    using Identity_diag_mat [of N] by (simp add: minimize_start_eq)
  have H: "loc_H ?P = fst (ddf N X s (loc_oldParams ?P))"
    by (simp add: minimize_start_eq pass_H_J) (simp add: ddf_eq)
  have J: "loc_J ?P = fst (df N X s (loc_oldParams ?P))"
    by (simp add: minimize_start_eq pass_H_J) (simp add: df_eq)
  have D: "loc_dH ?P = diag_mat N (loc_H ?P)"
    by (simp only: start pass_dH)
  show ?thesis
    using pass_update [of N X "minimize_start N X s par_in" k] H J D
    by (simp add: newton_step_def Let_def start_pass_fields)
qed

subsection \<open>Sums with and without the entries that are not numbers\<close>

lemma fold_numbers_filter:
  "fold (\<lambda>pt acc. add_unless_nan N acc (f pt)) pts a =
   fold (\<lambda>pt acc. d_add N acc (f pt)) (filter (\<lambda>pt. \<not> is_nan N (f pt)) pts) a"
  by (induction pts arbitrary: a) (simp_all add: add_unless_nan_def)

lemma sum_numbers_filter:
  "sum_numbers N f pts = sum_all N f (filter (\<lambda>pt. \<not> is_nan N (f pt)) pts)"
  by (simp add: sum_numbers_def sum_all_def fold_numbers_filter)

lemma sum_numbers_all:
  "(\<And>pt. pt \<in> set pts \<Longrightarrow> \<not> is_nan N (f pt)) \<Longrightarrow> sum_numbers N f pts = sum_all N f pts"
  by (simp add: sum_numbers_filter)

lemma sum_numbers_skip:
  "is_nan N (f pt) \<Longrightarrow> sum_numbers N f (pre @ pt # post) = sum_numbers N f (pre @ post)"
  by (simp add: sum_numbers_filter)

subsection \<open>The examples, evaluated\<close>

lemma upt11: "[0..<11] = [0, 1, 2, 3, 4, 5, 6, 7, 8, 9, 10]"
  by (simp add: upt_rec)

lemma rep11: "replicate 11 x = [x, x, x, x, x, x, x, x, x, x, x]"
  by (simp add: eval_nat_numeral)

lemmas example_defs =
  doubles_def formulas_def constructed_def guess_def good_point_def nan_point_def all_nan_point_def
  dne_def dsub_def signed_inf_def

lemmas eval_defs =
  mNumParams_def vec_of_def mat_of_def upt11 rep11 sum_numbers_def sum_all_def add_unless_nan_def is_nan_def
  jac_at_def hessian_at_def diag_mat_def mat_get_def vec_sub_def mat_add_def mat_scale_def
  times_example_def norm_example_def inverse_example_def dot_def
  jac_diagnostics_def hessian_diagnostics_def

lemma empty_body:
  "minimize_body doubles formulas (minimize_start doubles formulas constructed guess) =
     \<lparr>loc_this = constructed\<lparr>mParams := replicate mNumParams NaN,
         cout := [InitialGuess guess, IterMsg 1 NaN]\<rparr>,
      loc_H = Zero_mat doubles mNumParams mNumParams, loc_J = Zero_vec doubles mNumParams,
      loc_dH = Zero_mat doubles mNumParams mNumParams, loc_error = NaN, loc_iter = 1,
      loc_oldParams = guess\<rparr>"
  apply (simp add: minimize_start_eq)
  apply (subst Identity_diag_mat)
  apply (simp only: minimize_body_eq Let_def)
  apply (simp add: df_eq ddf_eq)
  apply (simp add: example_defs eval_defs Zero_mat_def Zero_vec_def)
  done

lemma empty_run:
  "minimize_loop doubles formulas (minimize_start doubles formulas constructed guess) =
     minimize_body doubles formulas (minimize_start doubles formulas constructed guess)"
  by (subst minimize_loop.simps) (simp add: empty_body continue_def, simp add: constructed_def doubles_def)

lemma good_body:
  "minimize_body doubles formulas
     (minimize_start doubles formulas ((loaded [good_point])\<lparr>mMaxIter := cap\<rparr>) guess) =
     \<lparr>loc_this = (loaded [good_point])\<lparr>mMaxIter := cap, mParams := guess,
         cout := [InitialGuess guess, IterMsg 1 (Fin 0)]\<rparr>,
      loc_H = Identity doubles mNumParams mNumParams, loc_J = Zero_vec doubles mNumParams,
      loc_dH = Identity doubles mNumParams mNumParams, loc_error = Fin 0, loc_iter = 1,
      loc_oldParams = guess\<rparr>"
  apply (simp add: minimize_start_eq)
  apply (subst Identity_diag_mat)
  apply (simp only: minimize_body_eq Let_def)
  apply (simp add: df_eq ddf_eq)
  apply (simp add: example_defs eval_defs Zero_mat_def Zero_vec_def loaded_def Identity_def)
  done

lemma good_run:
  "minimize_loop doubles formulas
     (minimize_start doubles formulas ((loaded [good_point])\<lparr>mMaxIter := cap\<rparr>) guess) =
   minimize_body doubles formulas
     (minimize_start doubles formulas ((loaded [good_point])\<lparr>mMaxIter := cap\<rparr>) guess)"
  by (subst minimize_loop.simps)
    (simp add: good_body continue_def, simp add: loaded_def constructed_def doubles_def)

lemma steep_body:
  "minimize_body doubles formulas (minimize_start doubles formulas (tuned [steep_point] cap) guess) =
     \<lparr>loc_this = (tuned [steep_point] cap)\<lparr>mParams := replicate mNumParams (Fin 0),
         cout := [InitialGuess guess, IterMsg 1 (Fin (sqrt 11))]\<rparr>,
      loc_H = Identity doubles mNumParams mNumParams, loc_J = replicate mNumParams (Fin 2),
      loc_dH = Identity doubles mNumParams mNumParams, loc_error = Fin (sqrt 11),
      loc_iter = 1, loc_oldParams = guess\<rparr>"
  apply (simp add: minimize_start_eq)
  apply (subst Identity_diag_mat)
  apply (simp only: minimize_body_eq Let_def)
  apply (simp add: df_eq ddf_eq)
  apply (simp add: example_defs eval_defs Zero_mat_def Zero_vec_def loaded_def tuned_def Identity_def
      steep_point_def)
  done

lemma steep_error: "dgt (Fin (sqrt 11)) (mMinThresh (tuned pts cap))"
proof -
  have "(1::real) \<le> sqrt 11"
    by simp
  then have "5764607523034235 / 1152921504606846976 < sqrt 11"
    by linarith
  then show ?thesis by (simp add: tuned_def loaded_def constructed_def)
qed

lemma steep_run:
  "minimize_loop doubles formulas (minimize_start doubles formulas (tuned [steep_point] 1) guess) =
   minimize_body doubles formulas (minimize_start doubles formulas (tuned [steep_point] 1) guess)"
  by (subst minimize_loop.simps) (simp add: steep_body continue_def, simp add: tuned_def)

lemma shallow_body:
  "minimize_body doubles formulas (minimize_start doubles formulas (tuned [shallow_point] cap) guess) =
     \<lparr>loc_this = (tuned [shallow_point] cap)\<lparr>mParams := replicate mNumParams (Fin (2047 / 2048)),
         cout := [InitialGuess guess, IterMsg 1 (Fin (sqrt (11 / 4194304)))]\<rparr>,
      loc_H = Identity doubles mNumParams mNumParams,
      loc_J = replicate mNumParams (Fin (1 / 1024)),
      loc_dH = Identity doubles mNumParams mNumParams, loc_error = Fin (sqrt (11 / 4194304)),
      loc_iter = 1, loc_oldParams = guess\<rparr>"
  apply (simp add: minimize_start_eq)
  apply (subst Identity_diag_mat)
  apply (simp only: minimize_body_eq Let_def)
  apply (simp add: df_eq ddf_eq)
  apply (simp add: example_defs eval_defs Zero_mat_def Zero_vec_def loaded_def tuned_def Identity_def
      shallow_point_def)
  done

lemma shallow_error: "\<not> dgt (Fin (sqrt (11 / 4194304))) (mMinThresh (tuned pts cap))"
proof -
  have "sqrt (11 / 4194304) \<le> (5764607523034235 / 1152921504606846976 :: real)"
    by (rule real_le_lsqrt) (simp_all add: power2_eq_square)
  then show ?thesis by (simp add: tuned_def loaded_def constructed_def)
qed

lemma shallow_run:
  "minimize_loop doubles formulas (minimize_start doubles formulas (tuned [shallow_point] cap) guess) =
   minimize_body doubles formulas (minimize_start doubles formulas (tuned [shallow_point] cap) guess)"
proof -
  have "\<not> d_gt doubles (Fin (sqrt (11 / 4194304))) (mMinThresh (tuned [shallow_point] cap))"
    using shallow_error [of "[shallow_point]" cap] by (simp add: doubles_def)
  then show ?thesis
    by (subst minimize_loop.simps) (simp add: shallow_body continue_def)
qed

section \<open>The claims\<close>

text \<open>
  C1, as the spec has it, fails: in the first pass of \<^verbatim>\<open>minimize\<close> on the constructed
  object (an empty cloud) the gradient is 0, the matrix \<open>H + \<lambda> dH\<close> is 0, and the \<open>\<Delta>\<close>
  that is subtracted is not-a-number in every entry: the matrix times \<open>\<Delta>\<close> is
  not-a-number, not the gradient, so \<open>\<Delta>\<close> does not solve the system (which 0 solves).
\<close>

theorem step_on_empty_cloud_is_no_solution:
  defines "P \<equiv> pass doubles formulas (minimize_start doubles formulas constructed guess) 0"
  defines "M \<equiv> mat_add doubles (loc_H P) (mat_scale doubles (mLambda constructed) (loc_dH P))"
  shows "loc_J P = replicate mNumParams (Fin 0)
   \<and> mat_times doubles (mat_inverse doubles M) (loc_J P) = replicate mNumParams NaN
   \<and> mat_times doubles M (mat_times doubles (mat_inverse doubles M) (loc_J P)) = replicate mNumParams NaN
   \<and> mParams (loc_this P) = replicate mNumParams NaN"
  unfolding P_def M_def
  by (simp add: empty_body) (simp add: example_defs eval_defs Zero_mat_def Zero_vec_def)

text \<open>
  C1, amended. In every pass \<open>k + 1\<close> of the loop of \<^verbatim>\<open>minimize\<close>: \<^verbatim>\<open>H\<close> and \<^verbatim>\<open>J\<close>
  are \<^verbatim>\<open>ddf\<close> and \<^verbatim>\<open>df\<close> at the parameters the pass starts from (the initial guess
  in the first pass, the result of the pass before in the others); the damping matrix
  \<^verbatim>\<open>dH\<close> is 11 by 11 with the diagonal of \<^verbatim>\<open>H\<close> and 0.0 elsewhere; the new parameters
  are the old ones minus \<open>\<Delta>\<close>, where \<open>\<Delta>\<close> is Eigen's inverse of \<open>M = H + \<lambda> dH\<close> times
  \<^verbatim>\<open>J\<close>, with \<open>\<lambda>\<close> the \<^verbatim>\<open>mLambda\<close> of the object; and \<open>\<Delta>\<close> solves \<open>M \<Delta> = J\<close> when
  that inverse is exact as far as \<^verbatim>\<open>J\<close> goes (\<open>inverse_exact\<close>). The loop ends with
  the locals of one of these passes, the one its count names.
\<close>

theorem damped_newton_pass:
  fixes N :: "'d numerics" and X :: "('d, 'p) externals" and s :: "'d minimizer"
    and par_in :: 'p and k :: nat
  defines "P \<equiv> pass N X (minimize_start N X s par_in) k"
  defines "M \<equiv> mat_add N (loc_H P) (mat_scale N (mLambda s) (loc_dH P))"
  shows "loc_oldParams P =
     (case k of 0 \<Rightarrow> params2Vec X par_in
      | Suc j \<Rightarrow> mParams (loc_this (pass N X (minimize_start N X s par_in) j)))
   \<and> loc_H P = fst (ddf N X s (loc_oldParams P))
   \<and> loc_J P = fst (df N X s (loc_oldParams P))
   \<and> loc_dH P = diag_mat N (loc_H P)
   \<and> (\<forall>i<mNumParams. \<forall>j<mNumParams.
         mat_get (loc_dH P) i j = (if i = j then mat_get (loc_H P) i i else d_zero N))
   \<and> mParams (loc_this P) =
       vec_sub N (loc_oldParams P) (mat_times N (mat_inverse N M) (loc_J P))
   \<and> mParams (loc_this P) = newton_step N X s (loc_oldParams P)
   \<and> (inverse_exact N M (loc_J P) \<longrightarrow>
        mat_times N M (mat_times N (mat_inverse N M) (loc_J P)) = loc_J P)
   \<and> minimize_loop N X (minimize_start N X s par_in) =
       pass N X (minimize_start N X s par_in)
         (nat (loc_iter (minimize_loop N X (minimize_start N X s par_in)) - 1))"
proof -
  let ?s0 = "s\<lparr>mParams := params2Vec X par_in, cout := cout s @ [InitialGuess (params2Vec X par_in)]\<rparr>"
  let ?I = "Identity N mNumParams mNumParams"
  have start: "minimize_start N X s par_in = (?s0, diag_mat N ?I, 0)"
    using Identity_diag_mat [of N] by (simp add: minimize_start_eq)
  have old: "loc_oldParams P =
     (case k of 0 \<Rightarrow> params2Vec X par_in
      | Suc j \<Rightarrow> mParams (loc_this (pass N X (minimize_start N X s par_in) j)))"
    unfolding P_def by (cases k) (simp_all add: minimize_start_eq body_H_J carry_def)
  have H: "loc_H P = fst (ddf N X s (loc_oldParams P))"
    unfolding P_def by (simp add: minimize_start_eq pass_H_J) (simp add: ddf_eq)
  have J: "loc_J P = fst (df N X s (loc_oldParams P))"
    unfolding P_def by (simp add: minimize_start_eq pass_H_J) (simp add: df_eq)
  have D: "loc_dH P = diag_mat N (loc_H P)"
    unfolding P_def by (simp only: start pass_dH)
  have entries: "\<forall>i<mNumParams. \<forall>j<mNumParams.
         mat_get (loc_dH P) i j = (if i = j then mat_get (loc_H P) i i else d_zero N)"
    by (simp only: D) (simp add: diag_mat_entries)
  have upd: "mParams (loc_this P) =
       vec_sub N (loc_oldParams P) (mat_times N (mat_inverse N M) (loc_J P))"
    unfolding P_def M_def
    using pass_update [of N X "minimize_start N X s par_in" k] by (simp add: start_pass_fields)
  have step: "mParams (loc_this P) = newton_step N X s (loc_oldParams P)"
    using upd H J D by (simp add: newton_step_def Let_def M_def)
  have solves: "mat_times N M (mat_times N (mat_inverse N M) (loc_J P)) = loc_J P"
    if "inverse_exact N M (loc_J P)"
  proof -
    have "mat_times N M (mat_times N (mat_inverse N M) (loc_J P)) =
        mat_times N (mat_mul N M (mat_inverse N M)) (loc_J P)"
      using that by (simp add: inverse_exact_def)
    also have "\<dots> = mat_times N (Identity N mNumParams mNumParams) (loc_J P)"
      using that by (simp add: inverse_exact_def)
    also have "\<dots> = loc_J P"
      using that by (simp add: inverse_exact_def)
    finally show ?thesis .
  qed
  obtain n where n:
    "minimize_loop N X (minimize_start N X s par_in) = pass N X (minimize_start N X s par_in) n"
    "loc_iter (minimize_loop N X (minimize_start N X s par_in)) = int n + 1"
    by (rule run_pass)
  have tie: "minimize_loop N X (minimize_start N X s par_in) =
       pass N X (minimize_start N X s par_in)
         (nat (loc_iter (minimize_loop N X (minimize_start N X s par_in)) - 1))"
    using n by simp
  show ?thesis
    using old H J D entries upd step solves tie by blast
qed

theorem damped_newton_pass_witness:
  defines "P \<equiv> pass doubles formulas (minimize_start doubles formulas (tuned [steep_point] 1) guess) 0"
  defines "M \<equiv> mat_add doubles (loc_H P) (mat_scale doubles (mLambda (tuned [steep_point] 1)) (loc_dH P))"
  shows "inverse_exact doubles M (loc_J P)
   \<and> mat_times doubles M (mat_times doubles (mat_inverse doubles M) (loc_J P)) = loc_J P
   \<and> loc_H P = Identity doubles mNumParams mNumParams
   \<and> loc_J P = replicate mNumParams (Fin 2)
   \<and> mat_get (loc_dH P) 3 3 = mat_get (loc_H P) 3 3
   \<and> mat_get (loc_dH P) 3 4 = Fin 0
   \<and> mat_times doubles (mat_inverse doubles M) (loc_J P) = replicate mNumParams (Fin 1)
   \<and> mParams (loc_this P) = replicate mNumParams (Fin 0)"
proof -
  note inst = damped_newton_pass [of doubles formulas "tuned [steep_point] 1" guess 0, folded P_def M_def]
  have H: "loc_H P = Identity doubles mNumParams mNumParams"
    and J: "loc_J P = replicate mNumParams (Fin 2)"
    and D: "loc_dH P = Identity doubles mNumParams mNumParams"
    and new: "mParams (loc_this P) = replicate mNumParams (Fin 0)"
    unfolding P_def by (simp_all add: steep_body)
  have M: "M = mat_of (\<lambda>i j. if i = j then Fin 2 else Fin 0) mNumParams mNumParams"
    unfolding M_def H D
    by (simp add: example_defs eval_defs Identity_def tuned_def loaded_def)
  have exact: "inverse_exact doubles M (loc_J P)"
    unfolding M J
    by (simp add: inverse_exact_def mat_mul_def Let_def)
      (simp add: example_defs eval_defs Identity_def)
  have solves: "mat_times doubles M (mat_times doubles (mat_inverse doubles M) (loc_J P)) = loc_J P"
    using inst exact by blast
  have "(3::nat) < mNumParams" and "(4::nat) < mNumParams"
    by (simp_all add: mNumParams_def)
  with inst have e1: "mat_get (loc_dH P) 3 3 = mat_get (loc_H P) 3 3"
    and e2: "mat_get (loc_dH P) 3 4 = d_zero doubles"
    by auto
  have Delta: "mat_times doubles (mat_inverse doubles M) (loc_J P) = replicate mNumParams (Fin 1)"
    unfolding M J by (simp add: example_defs eval_defs)
  show ?thesis
    using exact solves H J e1 e2 Delta new by (simp add: doubles_def)
qed

text \<open>
  C2, as the spec has it, fails: \<^verbatim>\<open>minimize\<close> on the constructed object (an empty
  cloud, 1000 passes at most, threshold 0.005) returns true after one pass although the
  step size of that pass is not \<open>\<le>\<close> the threshold: it is not-a-number, and the loop
  test \<^verbatim>\<open>error > mMinThresh\<close> is false of it. (The Hessian of an empty cloud is 0, and
  so is the matrix that is inverted.)
\<close>

theorem success_with_nan_error:
  "fst (minimize doubles formulas constructed guess guess)
   \<and> loc_iter (minimize_loop doubles formulas (minimize_start doubles formulas constructed guess)) = 1
   \<and> loc_error (minimize_loop doubles formulas (minimize_start doubles formulas constructed guess)) = NaN
   \<and> \<not> dle (loc_error (minimize_loop doubles formulas (minimize_start doubles formulas constructed guess)))
          (mMinThresh constructed)
   \<and> mSamples constructed = []"
  by (simp add: minimize_flag empty_run empty_body) (simp add: constructed_def)

text \<open>
  C2, amended. \<^verbatim>\<open>minimize\<close> returns true exactly when in some pass \<open>k + 1\<close> below
  \<^verbatim>\<open>mMaxIter\<close> the test \<^verbatim>\<open>error > mMinThresh\<close> is false (the error is at most the
  threshold, or not-a-number); it returns false exactly when the count of passes reached
  \<^verbatim>\<open>mMaxIter\<close>. With \<^verbatim>\<open>mMaxIter = 1\<close> it returns false after exactly one pass, and
  \<^verbatim>\<open>_par_out\<close> holds the parameters of that pass.
\<close>

theorem success_iff_test_fails_below_cap:
  "(fst (minimize N X s par_in par_out) \<longleftrightarrow>
      (\<exists>k. int k + 1 < mMaxIter s
         \<and> \<not> d_gt N (loc_error (pass N X (minimize_start N X s par_in) k)) (mMinThresh s)))
   \<and> (\<not> fst (minimize N X s par_in par_out) \<longleftrightarrow>
        mMaxIter s \<le> loc_iter (minimize_loop N X (minimize_start N X s par_in)))
   \<and> (mMaxIter s = 1 \<longrightarrow>
        \<not> fst (minimize N X s par_in par_out)
        \<and> loc_iter (minimize_loop N X (minimize_start N X s par_in)) = 1
        \<and> minimize_loop N X (minimize_start N X s par_in) =
            minimize_body N X (minimize_start N X s par_in)
        \<and> fst (snd (minimize N X s par_in par_out)) =
            vec2Param X (mParams (loc_this (minimize_body N X (minimize_start N X s par_in)))) par_out)"
proof -
  let ?c = "minimize_start N X s par_in"
  let ?err = "\<lambda>k. loc_error (pass N X ?c k)"
  obtain k where k:
    "minimize_loop N X ?c = pass N X ?c k"
    "\<not> continue N (pass N X ?c k)"
    "\<forall>j<k. continue N (pass N X ?c j)"
    "loc_iter (minimize_loop N X ?c) = int k + 1"
    by (rule run_pass)
  have flag: "fst (minimize N X s par_in par_out) \<longleftrightarrow> int k + 1 < mMaxIter s"
    by (simp add: minimize_flag k(4))
  have iff: "fst (minimize N X s par_in par_out) \<longleftrightarrow>
      (\<exists>k. int k + 1 < mMaxIter s \<and> \<not> d_gt N (?err k) (mMinThresh s))"
  proof
    assume "fst (minimize N X s par_in par_out)"
    then have "int k + 1 < mMaxIter s" using flag by simp
    moreover from this have "\<not> d_gt N (?err k) (mMinThresh s)"
      using k(2) by (simp add: continue_start_pass)
    ultimately show "\<exists>k. int k + 1 < mMaxIter s \<and> \<not> d_gt N (?err k) (mMinThresh s)"
      by blast
  next
    assume "\<exists>k. int k + 1 < mMaxIter s \<and> \<not> d_gt N (?err k) (mMinThresh s)"
    then obtain j where j: "int j + 1 < mMaxIter s" "\<not> d_gt N (?err j) (mMinThresh s)"
      by blast
    then have "\<not> continue N (pass N X ?c j)" by (simp add: continue_start_pass)
    then have "\<not> j < k" using k(3) by blast
    then have "int k + 1 < mMaxIter s" using j(1) by simp
    then show "fst (minimize N X s par_in par_out)" using flag by simp
  qed
  have fail: "\<not> fst (minimize N X s par_in par_out) \<longleftrightarrow>
      mMaxIter s \<le> loc_iter (minimize_loop N X ?c)"
    using flag k(4) by auto
  have one: "\<not> fst (minimize N X s par_in par_out)
        \<and> loc_iter (minimize_loop N X ?c) = 1
        \<and> minimize_loop N X ?c = minimize_body N X ?c
        \<and> fst (snd (minimize N X s par_in par_out)) =
            vec2Param X (mParams (loc_this (minimize_body N X ?c))) par_out"
    if cap: "mMaxIter s = 1"
  proof -
    have "\<not> continue N (pass N X ?c 0)"
      using cap by (simp add: continue_start_pass del: pass.simps)
    then have "minimize_loop N X ?c = pass N X ?c 0"
      by (intro stop_index) simp_all
    then have L: "minimize_loop N X ?c = minimize_body N X ?c" by simp
    have "loc_iter (minimize_loop N X ?c) = 1"
      using start_pass_fields(5) [of N X s par_in 0] L by simp
    then show ?thesis
      using L cap by (simp add: minimize_flag minimize_par_out)
  qed
  show ?thesis
    using iff fail one by blast
qed

theorem success_iff_test_fails_below_cap_witness:
  "mMaxIter (tuned [steep_point] 1) = 1
   \<and> \<not> fst (minimize doubles formulas (tuned [steep_point] 1) guess [])
   \<and> loc_iter (minimize_loop doubles formulas
         (minimize_start doubles formulas (tuned [steep_point] 1) guess)) = 1
   \<and> fst (snd (minimize doubles formulas (tuned [steep_point] 1) guess []))
       = replicate mNumParams (Fin 0)
   \<and> dgt (loc_error (minimize_loop doubles formulas
         (minimize_start doubles formulas (tuned [steep_point] 1) guess)))
         (mMinThresh (tuned [steep_point] 1))"
proof -
  have cap: "mMaxIter (tuned [steep_point] 1) = 1"
    by (simp add: tuned_def)
  show ?thesis
    using cap success_iff_test_fails_below_cap [of doubles formulas "tuned [steep_point] 1" guess "[]"]
      steep_error [of "[steep_point]" 1]
    by (simp add: steep_body) (simp add: formulas_def)
qed

text \<open>
  C3, as the spec has it, fails: for the cloud of the one point \<open>nan_point\<close>, whose first
  derivative is not-a-number in entry 0, entry 0 of \<^verbatim>\<open>df\<close> is 0.0, and the sum over
  all points of that entry is not-a-number.
\<close>

theorem nan_entry_is_not_summed:
  "fst (df doubles formulas (loaded [nan_point]) guess) =
     [Fin 0, Fin 2, Fin 2, Fin 2, Fin 2, Fin 2, Fin 2, Fin 2, Fin 2, Fin 2, Fin 2]
   \<and> vec_of (\<lambda>n. sum_all doubles (\<lambda>pt. jac_at formulas guess pt n) (mSamples (loaded [nan_point])))
        mNumParams =
     [NaN, Fin 2, Fin 2, Fin 2, Fin 2, Fin 2, Fin 2, Fin 2, Fin 2, Fin 2, Fin 2]"
  by (simp add: df_eq) (simp add: example_defs eval_defs loaded_def)

text \<open>
  C3, amended. For a parameter vector of 11 coefficients and any cloud, entry \<open>n\<close> of
  \<^verbatim>\<open>df\<close> is the sum, in the order of the cloud and from 0.0, of entry \<open>n\<close> of the first
  derivative over the points where that entry is a number, and entry \<open>(m, n)\<close> of
  \<^verbatim>\<open>ddf\<close> the same for entry \<open>11 m + n\<close> of the second derivative. Where no entry is
  not-a-number these are the sums over all points. For an empty cloud they are the zero
  vector and the zero matrix.
\<close>

theorem sums_of_the_numbers:
  assumes "length params = mNumParams"
  shows "fst (df N X s params) =
       vec_of (\<lambda>n. sum_all N (\<lambda>pt. jac_at X params pt n)
                 (filter (\<lambda>pt. \<not> is_nan N (jac_at X params pt n)) (mSamples s))) mNumParams
   \<and> fst (ddf N X s params) =
       mat_of (\<lambda>m n. sum_all N (\<lambda>pt. hessian_at X params pt (m * mNumParams + n))
                 (filter (\<lambda>pt. \<not> is_nan N (hessian_at X params pt (m * mNumParams + n))) (mSamples s)))
         mNumParams mNumParams
   \<and> ((\<forall>pt \<in> set (mSamples s). \<forall>n<mNumParams. \<not> is_nan N (jac_at X params pt n)) \<longrightarrow>
        fst (df N X s params) =
          vec_of (\<lambda>n. sum_all N (\<lambda>pt. jac_at X params pt n) (mSamples s)) mNumParams)
   \<and> ((\<forall>pt \<in> set (mSamples s). \<forall>i<mNumParams * mNumParams. \<not> is_nan N (hessian_at X params pt i)) \<longrightarrow>
        fst (ddf N X s params) =
          mat_of (\<lambda>m n. sum_all N (\<lambda>pt. hessian_at X params pt (m * mNumParams + n)) (mSamples s))
            mNumParams mNumParams)
   \<and> (mSamples s = [] \<longrightarrow>
        fst (df N X s params) = Zero_vec N mNumParams
        \<and> fst (ddf N X s params) = Zero_mat N mNumParams mNumParams)"
proof -
  have a: "fst (df N X s params) =
       vec_of (\<lambda>n. sum_all N (\<lambda>pt. jac_at X params pt n)
                 (filter (\<lambda>pt. \<not> is_nan N (jac_at X params pt n)) (mSamples s))) mNumParams"
    by (simp add: df_eq sum_numbers_filter)
  have b: "fst (ddf N X s params) =
       mat_of (\<lambda>m n. sum_all N (\<lambda>pt. hessian_at X params pt (m * mNumParams + n))
                 (filter (\<lambda>pt. \<not> is_nan N (hessian_at X params pt (m * mNumParams + n))) (mSamples s)))
         mNumParams mNumParams"
    by (simp add: ddf_eq sum_numbers_filter)
  have c: "fst (df N X s params) =
          vec_of (\<lambda>n. sum_all N (\<lambda>pt. jac_at X params pt n) (mSamples s)) mNumParams"
    if "\<forall>pt \<in> set (mSamples s). \<forall>n<mNumParams. \<not> is_nan N (jac_at X params pt n)"
    using that by (simp add: df_eq sum_numbers_all cong: vec_of_cong)
  have index: "m * mNumParams + n < mNumParams * mNumParams" if "m < mNumParams" "n < mNumParams" for m n
    using that by (simp add: mNumParams_def)
  have d: "fst (ddf N X s params) =
          mat_of (\<lambda>m n. sum_all N (\<lambda>pt. hessian_at X params pt (m * mNumParams + n)) (mSamples s))
            mNumParams mNumParams"
    if "\<forall>pt \<in> set (mSamples s). \<forall>i<mNumParams * mNumParams. \<not> is_nan N (hessian_at X params pt i)"
    using that index by (simp add: ddf_eq sum_numbers_all cong: mat_of_cong)
  have e: "fst (df N X s params) = Zero_vec N mNumParams
        \<and> fst (ddf N X s params) = Zero_mat N mNumParams mNumParams"
    if "mSamples s = []"
    using that by (simp add: df_eq ddf_eq sum_numbers_def Zero_vec_def replicate_vec_of Zero_mat_mat_of)
  show ?thesis
    using a b c d e by blast
qed

theorem sums_of_the_numbers_witness:
  "length guess = mNumParams
   \<and> fst (df doubles formulas (loaded [good_point, steep_point]) guess) =
       vec_of (\<lambda>n. sum_all doubles (\<lambda>pt. jac_at formulas guess pt n)
                 (mSamples (loaded [good_point, steep_point]))) mNumParams
   \<and> fst (ddf doubles formulas (loaded [good_point, steep_point]) guess) =
       mat_of (\<lambda>m n. sum_all doubles (\<lambda>pt. hessian_at formulas guess pt (m * mNumParams + n))
                 (mSamples (loaded [good_point, steep_point]))) mNumParams mNumParams
   \<and> mSamples constructed = []
   \<and> fst (df doubles formulas constructed guess) = Zero_vec doubles mNumParams
   \<and> fst (ddf doubles formulas constructed guess) = Zero_mat doubles mNumParams mNumParams"
proof -
  have g: "length guess = mNumParams" by (simp add: guess_def)
  have j: "\<forall>pt \<in> set (mSamples (loaded [good_point, steep_point])). \<forall>n<mNumParams.
      \<not> is_nan doubles (jac_at formulas guess pt n)"
    by (simp add: loaded_def example_defs steep_point_def is_nan_def jac_at_def)
  have h: "\<forall>pt \<in> set (mSamples (loaded [good_point, steep_point])). \<forall>i<mNumParams * mNumParams.
      \<not> is_nan doubles (hessian_at formulas guess pt i)"
    by (simp add: loaded_def example_defs steep_point_def is_nan_def hessian_at_def)
  have e: "mSamples constructed = []" by (simp add: constructed_def)
  show ?thesis
    using g e sums_of_the_numbers [OF g, of doubles formulas "loaded [good_point, steep_point]"] j h
      sums_of_the_numbers [OF g, of doubles formulas constructed]
    by blast
qed

text \<open>
  C4, as the spec has it, fails: entry 0 of the first derivative at \<open>nan_point\<close> is
  not-a-number, and \<^verbatim>\<open>df\<close> on the cloud with the point differs from \<^verbatim>\<open>df\<close> on the
  cloud without it, because the other entries of the point are numbers and are added.
\<close>

theorem point_with_one_nan_entry_counts:
  "is_nan doubles (jac_at formulas guess nan_point 0)
   \<and> fst (df doubles formulas (loaded [good_point, nan_point]) guess) =
       [Fin 0, Fin 2, Fin 2, Fin 2, Fin 2, Fin 2, Fin 2, Fin 2, Fin 2, Fin 2, Fin 2]
   \<and> fst (df doubles formulas (loaded [good_point]) guess) =
       [Fin 0, Fin 0, Fin 0, Fin 0, Fin 0, Fin 0, Fin 0, Fin 0, Fin 0, Fin 0, Fin 0]"
  by (simp add: df_eq) (simp add: example_defs eval_defs loaded_def)

text \<open>
  C4, amended. \<^verbatim>\<open>df\<close> and \<^verbatim>\<open>ddf\<close> return for every cloud, and print one line for
  each entry of each point that is not-a-number and nothing else. Adding a point to the
  cloud, anywhere in it, leaves every entry of the result unchanged in which the point's
  contribution is not-a-number; it leaves the whole vector (matrix) unchanged when every
  entry of the point's first (second) derivative is not-a-number.
\<close>

theorem nan_entries_skipped_and_reported:
  "cout (snd (df N X s params)) = cout s @ concat (map (jac_diagnostics N X params) (mSamples s))
   \<and> cout (snd (ddf N X s params)) = cout s @ concat (map (hessian_diagnostics N X params) (mSamples s))
   \<and> (n < mNumParams \<and> is_nan N (jac_at X params pt n) \<longrightarrow>
        JacobianNaN n \<in> set (jac_diagnostics N X params pt)
        \<and> fst (df N X (s\<lparr>mSamples := pre @ pt # post\<rparr>) params) ! n =
            fst (df N X (s\<lparr>mSamples := pre @ post\<rparr>) params) ! n)
   \<and> (m < mNumParams \<and> n < mNumParams \<and> is_nan N (hessian_at X params pt (m * mNumParams + n)) \<longrightarrow>
        HessianNaN m n \<in> set (hessian_diagnostics N X params pt)
        \<and> mat_get (fst (ddf N X (s\<lparr>mSamples := pre @ pt # post\<rparr>) params)) m n =
            mat_get (fst (ddf N X (s\<lparr>mSamples := pre @ post\<rparr>) params)) m n)
   \<and> ((\<forall>n<mNumParams. is_nan N (jac_at X params pt n)) \<longrightarrow>
        fst (df N X (s\<lparr>mSamples := pre @ pt # post\<rparr>) params) =
          fst (df N X (s\<lparr>mSamples := pre @ post\<rparr>) params))
   \<and> ((\<forall>m<mNumParams. \<forall>n<mNumParams. is_nan N (hessian_at X params pt (m * mNumParams + n))) \<longrightarrow>
        fst (ddf N X (s\<lparr>mSamples := pre @ pt # post\<rparr>) params) =
          fst (ddf N X (s\<lparr>mSamples := pre @ post\<rparr>) params))"
proof -
  have a: "cout (snd (df N X s params)) = cout s @ concat (map (jac_diagnostics N X params) (mSamples s))"
    by (simp add: df_eq)
  have b: "cout (snd (ddf N X s params)) = cout s @ concat (map (hessian_diagnostics N X params) (mSamples s))"
    by (simp add: ddf_eq)
  have c: "JacobianNaN n \<in> set (jac_diagnostics N X params pt)
        \<and> fst (df N X (s\<lparr>mSamples := pre @ pt # post\<rparr>) params) ! n =
            fst (df N X (s\<lparr>mSamples := pre @ post\<rparr>) params) ! n"
    if "n < mNumParams \<and> is_nan N (jac_at X params pt n)"
    using that by (simp add: df_eq sum_numbers_skip jac_diagnostics_def)
  have d: "HessianNaN m n \<in> set (hessian_diagnostics N X params pt)
        \<and> mat_get (fst (ddf N X (s\<lparr>mSamples := pre @ pt # post\<rparr>) params)) m n =
            mat_get (fst (ddf N X (s\<lparr>mSamples := pre @ post\<rparr>) params)) m n"
    if "m < mNumParams \<and> n < mNumParams \<and> is_nan N (hessian_at X params pt (m * mNumParams + n))"
    using that by (auto simp: ddf_eq sum_numbers_skip hessian_diagnostics_def)
  have e: "fst (df N X (s\<lparr>mSamples := pre @ pt # post\<rparr>) params) =
          fst (df N X (s\<lparr>mSamples := pre @ post\<rparr>) params)"
    if "\<forall>n<mNumParams. is_nan N (jac_at X params pt n)"
    using that by (simp add: df_eq sum_numbers_skip cong: vec_of_cong)
  have f: "fst (ddf N X (s\<lparr>mSamples := pre @ pt # post\<rparr>) params) =
          fst (ddf N X (s\<lparr>mSamples := pre @ post\<rparr>) params)"
    if "\<forall>m<mNumParams. \<forall>n<mNumParams. is_nan N (hessian_at X params pt (m * mNumParams + n))"
    using that by (simp add: ddf_eq sum_numbers_skip cong: mat_of_cong)
  show ?thesis
    using a b c d e f by blast
qed

theorem nan_entries_skipped_and_reported_witness:
  "(0::nat) < mNumParams
   \<and> is_nan doubles (jac_at formulas guess all_nan_point 0)
   \<and> is_nan doubles (hessian_at formulas guess all_nan_point (0 * mNumParams + 0))
   \<and> JacobianNaN 0 \<in> set (jac_diagnostics doubles formulas guess all_nan_point)
   \<and> HessianNaN 0 0 \<in> set (hessian_diagnostics doubles formulas guess all_nan_point)
   \<and> fst (df doubles formulas (constructed\<lparr>mSamples := [good_point] @ all_nan_point # [steep_point]\<rparr>) guess) =
       fst (df doubles formulas (constructed\<lparr>mSamples := [good_point] @ [steep_point]\<rparr>) guess)
   \<and> fst (ddf doubles formulas (constructed\<lparr>mSamples := [good_point] @ all_nan_point # [steep_point]\<rparr>) guess) =
       fst (ddf doubles formulas (constructed\<lparr>mSamples := [good_point] @ [steep_point]\<rparr>) guess)"
proof -
  have z: "(0::nat) < mNumParams" by (simp add: mNumParams_def)
  have j: "\<forall>n<mNumParams. is_nan doubles (jac_at formulas guess all_nan_point n)"
    by (simp add: example_defs is_nan_def jac_at_def)
  have h: "\<forall>m<mNumParams. \<forall>n<mNumParams.
      is_nan doubles (hessian_at formulas guess all_nan_point (m * mNumParams + n))"
    by (simp add: example_defs is_nan_def hessian_at_def)
  have j0: "is_nan doubles (jac_at formulas guess all_nan_point 0)"
    using j z by blast
  have h0: "is_nan doubles (hessian_at formulas guess all_nan_point (0 * mNumParams + 0))"
    using h z by blast
  show ?thesis
    using z j h j0 h0
      nan_entries_skipped_and_reported [of doubles formulas constructed guess 0 all_nan_point
        "[good_point]" "[steep_point]" 0]
    by blast
qed

text \<open>
  C5. Whatever the flag, \<^verbatim>\<open>_par_out\<close> is \<^verbatim>\<open>vec2Param\<close> of the \<^verbatim>\<open>mParams\<close> the loop
  ended with, which the object keeps as well; these are the parameters written by the
  update of the last pass. The flag is decided by the count of passes alone. In the
  example a fit that ends under the cap and a fit stopped by the cap both return the
  parameters of their last pass, the second with the flag false.
\<close>

theorem par_out_in_both_outcomes:
  "fst (snd (minimize N X s par_in par_out)) =
     vec2Param X (mParams (loc_this (minimize_loop N X (minimize_start N X s par_in)))) par_out
   \<and> mParams (snd (snd (minimize N X s par_in par_out))) =
       mParams (loc_this (minimize_loop N X (minimize_start N X s par_in)))
   \<and> fst (minimize N X s par_in par_out) =
       (loc_iter (minimize_loop N X (minimize_start N X s par_in)) < mMaxIter s)
   \<and> mParams (loc_this (minimize_loop N X (minimize_start N X s par_in))) =
       vec_sub N (loc_oldParams (minimize_loop N X (minimize_start N X s par_in)))
         (mat_times N
            (mat_inverse N
               (mat_add N (loc_H (minimize_loop N X (minimize_start N X s par_in)))
                  (mat_scale N (mLambda s) (loc_dH (minimize_loop N X (minimize_start N X s par_in))))))
            (loc_J (minimize_loop N X (minimize_start N X s par_in))))"
proof -
  obtain k where k:
    "minimize_loop N X (minimize_start N X s par_in) = pass N X (minimize_start N X s par_in) k"
    by (rule run_pass)
  show ?thesis
    using pass_update [of N X "minimize_start N X s par_in" k]
    by (simp add: minimize_par_out minimize_mParams minimize_flag k start_pass_fields)
qed

theorem par_out_in_both_outcomes_witness:
  "fst (minimize doubles formulas ((loaded [good_point])\<lparr>mMaxIter := 1000\<rparr>) guess [])
   \<and> fst (snd (minimize doubles formulas ((loaded [good_point])\<lparr>mMaxIter := 1000\<rparr>) guess [])) = guess
   \<and> \<not> fst (minimize doubles formulas (tuned [steep_point] 1) guess [])
   \<and> fst (snd (minimize doubles formulas (tuned [steep_point] 1) guess []))
       = replicate mNumParams (Fin 0)"
  using par_out_in_both_outcomes [of doubles formulas "(loaded [good_point])\<lparr>mMaxIter := 1000\<rparr>" guess "[]"]
    par_out_in_both_outcomes [of doubles formulas "tuned [steep_point] 1" guess "[]"]
  by (simp add: good_run good_body steep_run steep_body) (simp add: formulas_def tuned_def)

text \<open>
  C6. For a parameter vector of 11 coefficients and any cloud, \<^verbatim>\<open>df\<close> returns a vector
  of 11 coefficients and \<^verbatim>\<open>ddf\<close> a matrix of 11 rows of 11 coefficients each.
\<close>

theorem df_ddf_dimensions:
  assumes "length params = mNumParams"
  shows "length (fst (df N X s params)) = 11
     \<and> length (fst (ddf N X s params)) = 11
     \<and> map length (fst (ddf N X s params)) = replicate 11 11"
  by (simp add: df_eq ddf_eq row_lengths_mat_of) (simp add: mNumParams_def)

theorem df_ddf_dimensions_witness:
  "length guess = mNumParams
   \<and> length (fst (df doubles formulas constructed guess)) = 11
   \<and> length (fst (ddf doubles formulas constructed guess)) = 11
   \<and> map length (fst (ddf doubles formulas constructed guess)) = replicate 11 11
   \<and> length (fst (df doubles formulas (constructed\<lparr>mSamples := [good_point, nan_point]\<rparr>) guess)) = 11
   \<and> map length (fst (ddf doubles formulas (constructed\<lparr>mSamples := [good_point, nan_point]\<rparr>) guess))
        = replicate 11 11"
proof -
  have g: "length guess = mNumParams" by (simp add: guess_def)
  show ?thesis
    using g df_ddf_dimensions [OF g, of doubles formulas constructed]
      df_ddf_dimensions [OF g, of doubles formulas "constructed\<lparr>mSamples := [good_point, nan_point]\<rparr>"]
    by simp
qed

text \<open>
  C7. The vector of \<^verbatim>\<open>df\<close> and the matrix of \<^verbatim>\<open>ddf\<close> depend on the object through
  its cloud only: two objects with the same cloud give the same results, whatever their
  other members and output hold, and so does a second call after the first. Of the
  object, a call changes the output stream only.
\<close>

theorem evaluation_repeatable:
  assumes "mSamples s' = mSamples s"
  shows "fst (df N X s' params) = fst (df N X s params)
     \<and> fst (ddf N X s' params) = fst (ddf N X s params)
     \<and> fst (df N X (snd (df N X s params)) params) = fst (df N X s params)
     \<and> fst (ddf N X (snd (ddf N X s params)) params) = fst (ddf N X s params)
     \<and> snd (df N X s params) = s\<lparr>cout := cout (snd (df N X s params))\<rparr>
     \<and> snd (ddf N X s params) = s\<lparr>cout := cout (snd (ddf N X s params))\<rparr>"
  using assms by (simp add: df_eq ddf_eq)

theorem evaluation_repeatable_witness:
  "mSamples (constructed\<lparr>mSamples := [good_point, nan_point], mMaxIter := 7, mParams := [], cout := [Bad 3]\<rparr>)
     = mSamples (constructed\<lparr>mSamples := [good_point, nan_point]\<rparr>)
   \<and> fst (df doubles formulas
         (constructed\<lparr>mSamples := [good_point, nan_point], mMaxIter := 7, mParams := [], cout := [Bad 3]\<rparr>) guess)
       = fst (df doubles formulas (constructed\<lparr>mSamples := [good_point, nan_point]\<rparr>) guess)
   \<and> fst (ddf doubles formulas
         (constructed\<lparr>mSamples := [good_point, nan_point], mMaxIter := 7, mParams := [], cout := [Bad 3]\<rparr>) guess)
       = fst (ddf doubles formulas (constructed\<lparr>mSamples := [good_point, nan_point]\<rparr>) guess)"
  using evaluation_repeatable [of
      "constructed\<lparr>mSamples := [good_point, nan_point], mMaxIter := 7, mParams := [], cout := [Bad 3]\<rparr>"
      "constructed\<lparr>mSamples := [good_point, nan_point]\<rparr>" doubles formulas guess]
  by simp

text \<open>
  C8. The cloud is the same after \<^verbatim>\<open>df\<close>, after \<^verbatim>\<open>ddf\<close>, after \<^verbatim>\<open>minimize\<close>
  and after a second \<^verbatim>\<open>minimize\<close> on the same object as before.
\<close>

theorem samples_never_written:
  "mSamples (snd (df N X s params)) = mSamples s
   \<and> mSamples (snd (ddf N X s params)) = mSamples s
   \<and> mSamples (snd (snd (minimize N X s par_in par_out))) = mSamples s
   \<and> mSamples (snd (snd (minimize N X (snd (snd (minimize N X s par_in par_out))) par_in' par_out')))
       = mSamples s"
  by (simp add: df_eq ddf_eq minimize_samples)

text \<open>
  C9. The loop of \<^verbatim>\<open>minimize\<close> ends with a count of at least 1 and with the locals of
  pass number count. The parameters it ends with are the damped Newton update
  (\<open>newton_step\<close>) of the parameters its last pass started from, and they are that
  update applied count times to the initial guess; \<^verbatim>\<open>_par_out\<close> holds them. When the
  test fails after the first pass, the result is that of the first pass, and
  \<^verbatim>\<open>_par_out\<close> is the update of the initial guess: the test is not looked at before.
  In the example the first step is below the threshold, the count is 1, and the
  parameters returned are the updated ones, not the initial guess.
\<close>

theorem body_runs_before_test:
  fixes N :: "'d numerics" and X :: "('d, 'p) externals" and s :: "'d minimizer"
    and par_in par_out :: 'p
  defines "c \<equiv> minimize_start N X s par_in"
  defines "L \<equiv> minimize_loop N X (minimize_start N X s par_in)"
  shows "1 \<le> loc_iter L
   \<and> L = pass N X c (nat (loc_iter L - 1))
   \<and> fst (snd (minimize N X s par_in par_out)) =
       vec2Param X (mParams (loc_this (pass N X c (nat (loc_iter L - 1))))) par_out
   \<and> (\<not> continue N (minimize_body N X c) \<longrightarrow> L = minimize_body N X c \<and> loc_iter L = 1)
   \<and> mParams (loc_this L) = newton_step N X s (loc_oldParams L)
   \<and> mParams (loc_this L) = (newton_step N X s ^^ nat (loc_iter L)) (params2Vec X par_in)
   \<and> fst (snd (minimize N X s par_in par_out)) =
       vec2Param X ((newton_step N X s ^^ nat (loc_iter L)) (params2Vec X par_in)) par_out
   \<and> (\<not> continue N (minimize_body N X c) \<longrightarrow>
        fst (snd (minimize N X s par_in par_out)) =
          vec2Param X (newton_step N X s (params2Vec X par_in)) par_out)"
proof -
  obtain k where k: "L = pass N X c k" "loc_iter L = int k + 1"
    unfolding L_def c_def by (rule run_pass)
  have one: "1 \<le> loc_iter L"
    using k(2) by simp
  have last: "L = pass N X c (nat (loc_iter L - 1))"
    using k by simp
  have out: "fst (snd (minimize N X s par_in par_out)) =
       vec2Param X (mParams (loc_this (pass N X c (nat (loc_iter L - 1))))) par_out"
    using last by (simp add: minimize_par_out L_def)
  have first: "L = minimize_body N X c \<and> loc_iter L = 1"
    if "\<not> continue N (minimize_body N X c)"
  proof -
    have "L = minimize_body N X c"
      using that unfolding L_def c_def
      by (simp add: minimize_loop.simps [of N X "minimize_start N X s par_in"])
    moreover have "loc_iter (minimize_body N X c) = 1"
      using start_pass_fields(5) [of N X s par_in 0] by (simp add: c_def)
    ultimately show ?thesis by simp
  qed
  have step: "mParams (loc_this L) = newton_step N X s (loc_oldParams L)"
    using damped_step [of N X s par_in k] k(1) by (simp add: c_def)
  have count: "nat (loc_iter L) = Suc k"
    using k(2) by simp
  have iterate: "mParams (loc_this L) = (newton_step N X s ^^ nat (loc_iter L)) (params2Vec X par_in)"
    unfolding count using pass_params [of N X s par_in k] k(1) by (simp add: c_def)
  have out2: "fst (snd (minimize N X s par_in par_out)) =
       vec2Param X ((newton_step N X s ^^ nat (loc_iter L)) (params2Vec X par_in)) par_out"
    using iterate by (simp add: minimize_par_out L_def)
  have first2: "fst (snd (minimize N X s par_in par_out)) =
          vec2Param X (newton_step N X s (params2Vec X par_in)) par_out"
    if "\<not> continue N (minimize_body N X c)"
  proof -
    have "loc_iter L = 1" using first [OF that] by blast
    then have "nat (loc_iter L) = Suc 0" by simp
    then show ?thesis using out2 by simp
  qed
  show ?thesis
    using one last out first step iterate out2 first2 by blast
qed

theorem body_runs_before_test_witness:
  defines "c \<equiv> minimize_start doubles formulas (tuned [shallow_point] 1000) guess"
  defines "r \<equiv> minimize doubles formulas (tuned [shallow_point] 1000) guess []"
  shows "\<not> continue doubles (minimize_body doubles formulas c)
   \<and> \<not> dgt (loc_error (minimize_body doubles formulas c)) (mMinThresh (tuned [shallow_point] 1000))
   \<and> minimize_loop doubles formulas c = minimize_body doubles formulas c
   \<and> loc_iter (minimize_loop doubles formulas c) = 1
   \<and> fst r
   \<and> newton_step doubles formulas (tuned [shallow_point] 1000) guess =
       replicate mNumParams (Fin (2047 / 2048))
   \<and> fst (snd r) = replicate mNumParams (Fin (2047 / 2048))
   \<and> fst (snd r) \<noteq> guess"
proof -
  note inst = body_runs_before_test [of doubles formulas "tuned [shallow_point] 1000" guess "[]",
      folded c_def r_def]
  have small: "\<not> dgt (loc_error (minimize_body doubles formulas c)) (mMinThresh (tuned [shallow_point] 1000))"
    unfolding c_def using shallow_error [of "[shallow_point]" 1000] by (simp add: shallow_body)
  have "\<not> d_gt doubles (Fin (sqrt (11 / 4194304))) (mMinThresh (tuned [shallow_point] 1000))"
    using shallow_error [of "[shallow_point]" 1000] by (simp add: doubles_def)
  then have stop: "\<not> continue doubles (minimize_body doubles formulas c)"
    unfolding c_def by (simp add: shallow_body continue_def)
  have run: "minimize_loop doubles formulas c = minimize_body doubles formulas c"
      "loc_iter (minimize_loop doubles formulas c) = 1"
    using inst stop by blast+
  have flag: "fst r"
    unfolding r_def using run(2) by (simp add: minimize_flag c_def tuned_def)
  have out: "fst (snd r) = vec2Param formulas (newton_step doubles formulas (tuned [shallow_point] 1000)
      (params2Vec formulas guess)) []"
    using inst stop by blast
  have body: "fst (snd r) = replicate mNumParams (Fin (2047 / 2048))"
    unfolding r_def by (simp add: minimize_par_out run [unfolded c_def] shallow_body) (simp add: formulas_def)
  have step: "newton_step doubles formulas (tuned [shallow_point] 1000) guess =
       replicate mNumParams (Fin (2047 / 2048))"
    using out body by (simp add: formulas_def)
  have differs: "fst (snd r) \<noteq> guess"
    unfolding body by (simp add: guess_def eval_defs)
  show ?thesis
    using stop small run flag step body differs by blast
qed

text \<open>
  C10. The flag is true exactly when the count of passes at the end of the loop is below
  \<^verbatim>\<open>mMaxIter\<close>; the error is not looked at. When the test \<^verbatim>\<open>error > mMinThresh\<close>
  held in every pass before pass number \<^verbatim>\<open>mMaxIter\<close>, the loop ends with that pass and
  \<^verbatim>\<open>minimize\<close> returns false, whatever the error of that pass. In the example the cap
  is 1 and the error of pass 1 is 0.0, at most the threshold: the flag is false.
\<close>

theorem flag_from_count_alone:
  "fst (minimize N X s par_in par_out) =
     (\<not> mMaxIter s \<le> loc_iter (minimize_loop N X (minimize_start N X s par_in)))
   \<and> (int k + 1 = mMaxIter s
        \<and> (\<forall>j<k. d_gt N (loc_error (pass N X (minimize_start N X s par_in) j)) (mMinThresh s))
      \<longrightarrow> minimize_loop N X (minimize_start N X s par_in) = pass N X (minimize_start N X s par_in) k
          \<and> loc_iter (minimize_loop N X (minimize_start N X s par_in)) = mMaxIter s
          \<and> \<not> fst (minimize N X s par_in par_out))"
proof -
  let ?c = "minimize_start N X s par_in"
  have flag: "fst (minimize N X s par_in par_out) =
     (\<not> mMaxIter s \<le> loc_iter (minimize_loop N X ?c))"
    by (auto simp: minimize_flag)
  have last: "minimize_loop N X ?c = pass N X ?c k
          \<and> loc_iter (minimize_loop N X ?c) = mMaxIter s
          \<and> \<not> fst (minimize N X s par_in par_out)"
    if cap: "int k + 1 = mMaxIter s"
      and big: "\<forall>j<k. d_gt N (loc_error (pass N X ?c j)) (mMinThresh s)"
  proof -
    have "\<not> continue N (pass N X ?c k)"
      using cap by (simp add: continue_start_pass)
    moreover have "\<forall>j<k. continue N (pass N X ?c j)"
      using cap big by (simp add: continue_start_pass)
    ultimately have L: "minimize_loop N X ?c = pass N X ?c k"
      by (rule stop_index)
    then have "loc_iter (minimize_loop N X ?c) = mMaxIter s"
      using cap by (simp add: start_pass_fields)
    then show ?thesis using L flag by simp
  qed
  show ?thesis
    using flag last by blast
qed

theorem flag_from_count_alone_witness:
  "int 0 + 1 = mMaxIter ((loaded [good_point])\<lparr>mMaxIter := 1\<rparr>)
   \<and> loc_error (pass doubles formulas
         (minimize_start doubles formulas ((loaded [good_point])\<lparr>mMaxIter := 1\<rparr>) guess) 0) = Fin 0
   \<and> dle (Fin 0) (mMinThresh ((loaded [good_point])\<lparr>mMaxIter := 1\<rparr>))
   \<and> loc_iter (minimize_loop doubles formulas
         (minimize_start doubles formulas ((loaded [good_point])\<lparr>mMaxIter := 1\<rparr>) guess)) = 1
   \<and> \<not> fst (minimize doubles formulas ((loaded [good_point])\<lparr>mMaxIter := 1\<rparr>) guess [])"
  using flag_from_count_alone [of doubles formulas "(loaded [good_point])\<lparr>mMaxIter := 1\<rparr>" guess "[]" 0]
  by (simp add: good_body) (simp add: loaded_def constructed_def)

end
